theory Spec2Isabelle
  imports Main "HOL-Library.Word"
begin

unbundle bit_operations_syntax

section \<open>Machine types and raw memory\<close>

type_synonym u8 = "8 word"
type_synonym u32 = "32 word"
type_synonym u64 = "64 word"

text \<open>
  A C \<open>int\<close> is a 32-bit word read in two's complement: comparisons on it are the
  signed ones (\<open><s\<close>, \<open>\<le>s\<close>), \<open>++\<close> wraps (QEMU is built with \<open>-fwrapv\<close>), and the
  conversion to \<open>uint32_t\<close> in a mixed expression keeps the bits.
\<close>

type_synonym c_int = "32 word"

text \<open>
  An array reached through a pointer (\<open>storage\<close>, \<open>page_buf\<close>, \<open>jedec_id\<close>) is the
  memory at that pointer: a byte for every offset from the base. Only the offsets
  \<open>0 .. size - 1\<close> of \<open>storage\<close>, \<open>0 .. 255\<close> of \<open>page_buf\<close> and \<open>0 .. 2\<close> of
  \<open>jedec_id\<close> belong to the array. C does no bounds check of its own, so \<open>memset\<close> and
  \<open>memcpy\<close> do none either: an access at another offset is an access outside the array,
  which in C is a heap or struct overflow with no defined result. The functions below
  therefore describe the code on the calls that stay inside the arrays; which calls
  those are is said by \<open>g233_flash_transfer_in_bounds\<close> and
  \<open>g233_flash_set_cs_in_bounds\<close>. They are all the calls on a device whose size is a
  multiple of 4096 and that is driven with bytes (\<open>flash_calls_in_bounds\<close>); a sector
  erase on a device of another size can be one that is not.
\<close>

type_synonym mem = "int \<Rightarrow> u8"

definition memset :: "mem \<Rightarrow> int \<Rightarrow> u8 \<Rightarrow> int \<Rightarrow> mem" where
  "memset m a v n = (\<lambda>i. if a \<le> i \<and> i < a + n then v else m i)"

definition memcpy :: "mem \<Rightarrow> int \<Rightarrow> mem \<Rightarrow> int \<Rightarrow> mem" where
  "memcpy dst a src n = (\<lambda>i. if a \<le> i \<and> i < a + n then src (i - a) else dst i)"

section \<open>The flash device (hw/block/m25p80\_g233.c)\<close>

abbreviation (input) CMD_JEDEC_ID :: u32 where "CMD_JEDEC_ID \<equiv> 0x9F"
abbreviation (input) CMD_READ :: u32 where "CMD_READ \<equiv> 0x03"
abbreviation (input) CMD_WREN :: u32 where "CMD_WREN \<equiv> 0x06"
abbreviation (input) CMD_WRDI :: u32 where "CMD_WRDI \<equiv> 0x04"
abbreviation (input) CMD_RDSR :: u32 where "CMD_RDSR \<equiv> 0x05"
abbreviation (input) CMD_WRSR :: u32 where "CMD_WRSR \<equiv> 0x01"
abbreviation (input) CMD_PP :: u32 where "CMD_PP \<equiv> 0x02"
abbreviation (input) CMD_SE :: u32 where "CMD_SE \<equiv> 0x20"

datatype FlashState =
    STATE_IDLE
  | STATE_READING_CMD
  | STATE_READING_ID
  | STATE_READING_DATA
  | STATE_READING_SR
  | STATE_WRITING_SR
  | STATE_WRITING_DATA
  | STATE_ERASING

text \<open>
  \<open>struct G233FlashState\<close>. The field \<open>size\<close> is called \<open>flash_size\<close> here
  (\<open>size\<close> is a constant of HOL); \<open>parent_obj\<close> and \<open>blk\<close> are never used by the code.
\<close>

record G233FlashState =
  storage :: mem
  flash_size :: u32
  jedec_id :: mem
  state :: FlashState
  cmd :: u8
  addr :: u32
  addr_bytes :: c_int
  data_pos :: c_int
  status_reg :: u8
  write_enable :: bool
  page_buf :: mem
  page_pos :: c_int

definition g233_flash_reset :: "G233FlashState \<Rightarrow> G233FlashState" where
  "g233_flash_reset s =
     s\<lparr>state := STATE_IDLE, cmd := 0, addr := 0, addr_bytes := 0, data_pos := 0,
       status_reg := 0, write_enable := False, page_pos := 0\<rparr>"

text \<open>
  \<open>g233_flash_transfer\<close>: the state after the call and the byte returned. \<open>tx\<close> is the
  \<open>uint32_t\<close> the bus hands over; the \<open>switch\<close> compares all 32 bits of it, the stores
  into \<open>cmd\<close> and \<open>page_buf\<close> keep the low eight.
\<close>

definition g233_flash_transfer :: "G233FlashState \<Rightarrow> u32 \<Rightarrow> G233FlashState \<times> u32" where
  "g233_flash_transfer s tx =
    (let (s', rx) =
       (case state s of
          STATE_IDLE \<Rightarrow>
            (let s1 = s\<lparr>cmd := ucast tx\<rparr> in
             if tx = CMD_JEDEC_ID then (s1\<lparr>state := STATE_READING_ID, data_pos := 0\<rparr>, 0)
             else if tx = CMD_RDSR then (s1\<lparr>state := STATE_READING_SR\<rparr>, 0)
             else if tx = CMD_WREN then (s1\<lparr>write_enable := True\<rparr>, 0)
             else if tx = CMD_WRDI then (s1\<lparr>write_enable := False\<rparr>, 0)
             else if tx = CMD_READ then
               (s1\<lparr>state := STATE_READING_CMD, addr := 0, addr_bytes := 0\<rparr>, 0)
             else if tx = CMD_PP then
               (if write_enable s1
                then (s1\<lparr>state := STATE_READING_CMD, addr := 0, addr_bytes := 0,
                         page_pos := 0\<rparr>, 0)
                else (s1, 0))
             else if tx = CMD_SE then
               (if write_enable s1
                then (s1\<lparr>state := STATE_READING_CMD, addr := 0, addr_bytes := 0\<rparr>, 0)
                else (s1, 0))
             else (s1, 0))
        | STATE_READING_ID \<Rightarrow>
            (if data_pos s <s 3
             then (s\<lparr>data_pos := data_pos s + 1\<rparr>, ucast (jedec_id s (sint (data_pos s))))
             else (s, 0xFF))
        | STATE_READING_SR \<Rightarrow> (s\<lparr>state := STATE_IDLE\<rparr>, ucast (status_reg s))
        | STATE_READING_CMD \<Rightarrow>
            (let s1 = s\<lparr>addr := push_bit 8 (addr s) OR tx, addr_bytes := addr_bytes s + 1\<rparr> in
             if 3 \<le>s addr_bytes s1 then
               (if cmd s1 = ucast CMD_READ then
                  (s1\<lparr>state := STATE_READING_DATA, data_pos := 0\<rparr>, 0)
                else if cmd s1 = ucast CMD_PP then
                  (s1\<lparr>state := STATE_WRITING_DATA\<rparr>, 0)
                else if cmd s1 = ucast CMD_SE then
                  (let sector_addr = addr s1 AND NOT 0xFFF;
                       s2 = (if sector_addr < flash_size s1
                             then s1\<lparr>storage := memset (storage s1) (uint sector_addr) 0xFF 4096\<rparr>
                             else s1)
                   in (s2\<lparr>write_enable := False, state := STATE_IDLE\<rparr>, 0))
                else (s1, 0))
             else (s1, 0))
        | STATE_READING_DATA \<Rightarrow>
            (let rx = (if addr s + data_pos s < flash_size s
                       then ucast (storage s (uint (addr s + data_pos s)))
                       else 0xFF)
             in (s\<lparr>data_pos := data_pos s + 1\<rparr>, rx))
        | STATE_WRITING_DATA \<Rightarrow>
            (if page_pos s <s 256
             then (s\<lparr>page_buf := (page_buf s)(sint (page_pos s) := ucast tx),
                     page_pos := page_pos s + 1\<rparr>, 0)
             else (s, 0))
        | _ \<Rightarrow> (s\<lparr>state := STATE_IDLE\<rparr>, 0))
     in (s', rx AND 0xFF))"

text \<open>
  \<open>g233_flash_set_cs\<close>, the \<open>set_cs\<close> hook of the SSI peripheral class. The C function
  always returns 0, so only the state is returned here.
\<close>

definition g233_flash_set_cs :: "G233FlashState \<Rightarrow> bool \<Rightarrow> G233FlashState" where
  "g233_flash_set_cs s select =
    (if \<not> select then
       (let s1 = (if state s = STATE_WRITING_DATA \<and> 0 <s page_pos s then
                    (let s0 = (if addr s + page_pos s \<le> flash_size s
                               then s\<lparr>storage := memcpy (storage s) (uint (addr s))
                                                     (page_buf s) (sint (page_pos s))\<rparr>
                               else s)
                     in s0\<lparr>write_enable := False\<rparr>)
                  else s)
        in s1\<lparr>state := STATE_IDLE, data_pos := 0, page_pos := 0, addr := 0, addr_bytes := 0\<rparr>)
     else s)"

text \<open>
  \<open>g233_flash_cs\<close>, the GPIO handler registered in \<open>realize\<close>: the same body, run when
  \<open>level\<close> is non-zero. Its \<open>fprintf\<close> diagnostics do not touch the state.
\<close>

definition g233_flash_cs :: "G233FlashState \<Rightarrow> c_int \<Rightarrow> c_int \<Rightarrow> G233FlashState" where
  "g233_flash_cs s n level =
    (if level \<noteq> 0 then
       (let s1 = (if state s = STATE_WRITING_DATA \<and> 0 <s page_pos s then
                    (let s0 = (if addr s + page_pos s \<le> flash_size s
                               then s\<lparr>storage := memcpy (storage s) (uint (addr s))
                                                     (page_buf s) (sint (page_pos s))\<rparr>
                               else s)
                     in s0\<lparr>write_enable := False\<rparr>)
                  else s)
        in s1\<lparr>state := STATE_IDLE, data_pos := 0, page_pos := 0, addr := 0, addr_bytes := 0\<rparr>)
     else s)"

text \<open>
  The array accesses of \<open>g233_flash_transfer\<close>, each with the condition under which the
  source makes it, and whether it lies inside its array: \<open>jedec_id[data_pos]\<close> (three
  bytes) while reading the identifier, the 4096 bytes of \<open>memset\<close> at the end of a
  sector-erase address, against the \<open>size\<close> bytes of \<open>storage\<close>, and \<open>page_buf[page_pos]\<close>
  (256 bytes) while writing data. The source guards the upper end of the two indices and
  the start of the sector; the read of \<open>storage\<close> in \<open>STATE_READING_DATA\<close> is guarded in
  full.
\<close>

definition g233_flash_transfer_in_bounds :: "G233FlashState \<Rightarrow> u32 \<Rightarrow> bool" where
  "g233_flash_transfer_in_bounds s tx =
    (case state s of
       STATE_READING_ID \<Rightarrow> (if data_pos s <s 3 then 0 \<le>s data_pos s else True)
     | STATE_READING_CMD \<Rightarrow>
         (let s1 = s\<lparr>addr := push_bit 8 (addr s) OR tx, addr_bytes := addr_bytes s + 1\<rparr>;
              sector_addr = addr s1 AND NOT 0xFFF
          in if 3 \<le>s addr_bytes s1 \<and> cmd s1 \<noteq> ucast CMD_READ \<and> cmd s1 \<noteq> ucast CMD_PP \<and>
                cmd s1 = ucast CMD_SE \<and> sector_addr < flash_size s1
             then uint sector_addr + 4096 \<le> uint (flash_size s1)
             else True)
     | STATE_WRITING_DATA \<Rightarrow> (if page_pos s <s 256 then 0 \<le>s page_pos s else True)
     | _ \<Rightarrow> True)"

text \<open>
  The one array access of \<open>g233_flash_set_cs\<close> and of \<open>g233_flash_cs\<close>: \<open>memcpy\<close> of
  \<open>page_pos\<close> bytes from \<open>page_buf\<close> to \<open>storage + addr\<close>. The source compares the 32-bit
  sum \<open>addr + page_pos\<close> with \<open>size\<close>.
\<close>

definition g233_flash_set_cs_in_bounds :: "G233FlashState \<Rightarrow> bool \<Rightarrow> bool" where
  "g233_flash_set_cs_in_bounds s select =
    (if \<not> select \<and> state s = STATE_WRITING_DATA \<and> 0 <s page_pos s \<and>
        addr s + page_pos s \<le> flash_size s
     then uint (addr s) + sint (page_pos s) \<le> uint (flash_size s) \<and> sint (page_pos s) \<le> 256
     else True)"

text \<open>
  \<open>g233_flash_realize\<close>: the default size, the JEDEC identifier, and the storage block
  (\<open>g_malloc0\<close>, then filled with \<open>0xFF\<close>).
\<close>

definition g233_flash_realize :: "G233FlashState \<Rightarrow> G233FlashState" where
  "g233_flash_realize s =
    (let s1 = (if flash_size s = 0 then s\<lparr>flash_size := 2 * 1024 * 1024\<rparr> else s);
         s2 = s1\<lparr>jedec_id := (jedec_id s1)(0 := 0xEF)\<rparr>;
         s3 = s2\<lparr>jedec_id := (jedec_id s2)(1 := 0x30)\<rparr>;
         s4 = (if flash_size s3 = 2 * 1024 * 1024 then s3\<lparr>jedec_id := (jedec_id s3)(2 := 0x15)\<rparr>
               else if flash_size s3 = 4 * 1024 * 1024 then s3\<lparr>jedec_id := (jedec_id s3)(2 := 0x16)\<rparr>
               else s3);
         s5 = s4\<lparr>storage := memset (storage s4) 0 0 (uint (flash_size s4))\<rparr>
     in s5\<lparr>storage := memset (storage s5) 0 0xFF (uint (flash_size s5))\<rparr>)"

text \<open>
  The object as the QEMU object model hands it to \<open>realize\<close>: every field of the
  instance is zero, then the \<open>size\<close> property is set.
\<close>

definition g233_flash_new :: "u32 \<Rightarrow> G233FlashState" where
  "g233_flash_new sz =
     \<lparr>storage = (\<lambda>_. 0), flash_size = sz, jedec_id = (\<lambda>_. 0), state = STATE_IDLE, cmd = 0,
      addr = 0, addr_bytes = 0, data_pos = 0, status_reg = 0, write_enable = False,
      page_buf = (\<lambda>_. 0), page_pos = 0\<rparr>"

definition flash_init :: "u32 \<Rightarrow> G233FlashState" where
  "flash_init sz = g233_flash_reset (g233_flash_realize (g233_flash_new sz))"

text \<open>A run of \<open>transfer\<close> calls: the final state and the bytes returned, in order.\<close>

fun transfers :: "G233FlashState \<Rightarrow> u32 list \<Rightarrow> G233FlashState \<times> u32 list" where
  "transfers s [] = (s, [])"
| "transfers s (tx # txs) =
     (let (s1, rx) = g233_flash_transfer s tx;
          (s2, rxs) = transfers s1 txs
      in (s2, rx # rxs))"

text \<open>
  The entry points of the device, as the class and \<open>realize\<close> register them
  (\<open>transfer\<close>, \<open>set_cs\<close>, the GPIO handler, the reset phase), and a run of calls.
\<close>

datatype flash_op = Transfer u32 | SetCs bool | GpioCs c_int c_int | Reset

fun flash_step :: "G233FlashState \<Rightarrow> flash_op \<Rightarrow> G233FlashState" where
  "flash_step s (Transfer tx) = fst (g233_flash_transfer s tx)"
| "flash_step s (SetCs select) = g233_flash_set_cs s select"
| "flash_step s (GpioCs n level) = g233_flash_cs s n level"
| "flash_step s Reset = g233_flash_reset s"

definition flash_run :: "G233FlashState \<Rightarrow> flash_op list \<Rightarrow> G233FlashState" where
  "flash_run s ops = foldl flash_step s ops"

text \<open>
  What holds of every state the entry points can produce: the two counters are in
  range, and while the address is being collected fewer than three bytes have arrived
  and the command is one of the three that take an address.
\<close>

definition flash_inv :: "G233FlashState \<Rightarrow> bool" where
  "flash_inv s =
     (uint (page_pos s) \<le> 256 \<and> uint (addr_bytes s) \<le> 3 \<and>
      (if state s = STATE_READING_CMD
       then uint (addr_bytes s) < 3 \<and> (cmd s = 3 \<or> cmd s = 2 \<or> cmd s = 0x20)
       else True))"

text \<open>
  The invariant of a device that stays inside its arrays: besides \<open>flash_inv\<close>, the size
  is a whole number of sectors, the index into \<open>jedec_id\<close> is at most 3, and the address is no wider than the
  bytes collected so far allow (24 bits once it is complete). \<open>byte_op\<close> says that a
  call hands over a byte, as the controller does (\<open>dr_tx = value & 0xFF\<close>);
  \<open>flash_step_in_bounds\<close> says that a call of an entry point stays inside the arrays.
\<close>

definition flash_safe :: "G233FlashState \<Rightarrow> bool" where
  "flash_safe s =
     (flash_inv s \<and> 4096 dvd uint (flash_size s) \<and>
      (if state s = STATE_READING_ID then uint (data_pos s) \<le> 3 else True) \<and>
      (if state s = STATE_READING_CMD
       then uint (addr s) \<le> (if uint (addr_bytes s) = 0 then 0
                               else if uint (addr_bytes s) = 1 then 0xFF else 0xFFFF)
       else True) \<and>
      (if state s = STATE_WRITING_DATA then uint (addr s) \<le> 0xFFFFFF else True))"

fun byte_op :: "flash_op \<Rightarrow> bool" where
  "byte_op (Transfer tx) = (tx \<le> 0xFF)"
| "byte_op (SetCs select) = True"
| "byte_op (GpioCs n level) = True"
| "byte_op Reset = True"

fun flash_step_in_bounds :: "G233FlashState \<Rightarrow> flash_op \<Rightarrow> bool" where
  "flash_step_in_bounds s (Transfer tx) = g233_flash_transfer_in_bounds s tx"
| "flash_step_in_bounds s (SetCs select) = g233_flash_set_cs_in_bounds s select"
| "flash_step_in_bounds s (GpioCs n level) = g233_flash_set_cs_in_bounds s (level = 0)"
| "flash_step_in_bounds s Reset = True"

section \<open>The SPI controller (hw/ssi/g233\_spi.c)\<close>

abbreviation (input) SPI_CR1 :: u64 where "SPI_CR1 \<equiv> 0x00"
abbreviation (input) SPI_CR2 :: u64 where "SPI_CR2 \<equiv> 0x04"
abbreviation (input) SPI_SR :: u64 where "SPI_SR \<equiv> 0x08"
abbreviation (input) SPI_DR :: u64 where "SPI_DR \<equiv> 0x0C"
abbreviation (input) SPI_CSCTRL :: u64 where "SPI_CSCTRL \<equiv> 0x10"

abbreviation (input) SPI_CR1_SPE :: u32 where "SPI_CR1_SPE \<equiv> 0x40"
abbreviation (input) SPI_CR1_MSTR :: u32 where "SPI_CR1_MSTR \<equiv> 0x04"

abbreviation (input) SPI_CR2_RXNEIE :: u32 where "SPI_CR2_RXNEIE \<equiv> 0x40"
abbreviation (input) SPI_CR2_ERRIE :: u32 where "SPI_CR2_ERRIE \<equiv> 0x20"
abbreviation (input) SPI_CR2_TXEIE :: u32 where "SPI_CR2_TXEIE \<equiv> 0x80"

abbreviation (input) SPI_SR_TXE :: u32 where "SPI_SR_TXE \<equiv> 0x02"
abbreviation (input) SPI_SR_RXNE :: u32 where "SPI_SR_RXNE \<equiv> 0x01"
abbreviation (input) SPI_SR_UDR :: u32 where "SPI_SR_UDR \<equiv> 0x04"
abbreviation (input) SPI_SR_OVR :: u32 where "SPI_SR_OVR \<equiv> 0x08"
abbreviation (input) SPI_SR_BSY :: u32 where "SPI_SR_BSY \<equiv> 0x80"

text \<open>
  \<open>struct G233SPIState\<close>. The outputs of the device are levels on lines:
  \<open>irq\<close> is the level last driven on the interrupt line by \<open>qemu_set_irq\<close>;
  \<open>cs_lines\<close> is the array of four select lines (\<open>None\<close> while the pointer is
  \<open>NULL\<close>, and \<open>True\<close> at the slots where a line is attached); \<open>cs_level\<close> is the level
  last driven on each select line. \<open>parent_obj\<close> and \<open>iomem\<close> carry no state of the
  model; the bus \<open>ssi\<close> is passed to the functions that use it.
\<close>

record G233SPIState =
  irq :: bool
  cs_lines :: "(nat \<Rightarrow> bool) option"
  cs_level :: "nat \<Rightarrow> bool"
  cr1 :: u32
  cr2 :: u32
  sr :: u32
  dr_tx :: u32
  dr_rx :: u32
  csctrl :: u32
  prev_csctrl :: u32
  rx_fifo_has_data :: bool
  interrupt_count :: c_int

definition g233_spi_update_irq :: "G233SPIState \<Rightarrow> G233SPIState" where
  "g233_spi_update_irq s =
    (let irq_state = False;
         irq_state = (if cr2 s AND SPI_CR2_RXNEIE \<noteq> 0 \<and> sr s AND SPI_SR_RXNE \<noteq> 0
                      then True else irq_state);
         irq_state = (if cr2 s AND SPI_CR2_TXEIE \<noteq> 0 \<and> sr s AND SPI_SR_TXE \<noteq> 0
                      then True else irq_state);
         irq_state = (if cr2 s AND SPI_CR2_ERRIE \<noteq> 0 \<and>
                         sr s AND (SPI_SR_UDR OR SPI_SR_OVR) \<noteq> 0
                      then True else irq_state);
         s1 = (if irq_state then s\<lparr>interrupt_count := interrupt_count s + 1\<rparr> else s)
     in s1\<lparr>irq := irq_state\<rparr>)"

text \<open>
  \<open>g233_spi_read\<close>: the state after the access and the value returned. A bad offset
  is logged and reads as 0.
\<close>

definition g233_spi_read :: "G233SPIState \<Rightarrow> u64 \<Rightarrow> u32 \<Rightarrow> G233SPIState \<times> u64" where
  "g233_spi_read s a sz =
    (if a = SPI_CR1 then (s, ucast (cr1 s))
     else if a = SPI_CR2 then (s, ucast (cr2 s))
     else if a = SPI_SR then (s, ucast (sr s))
     else if a = SPI_DR then
       (let ret = dr_rx s;
            s1 = s\<lparr>sr := sr s AND NOT SPI_SR_RXNE\<rparr>;
            s2 = s1\<lparr>rx_fifo_has_data := False\<rparr>
        in (g233_spi_update_irq s2, ucast ret))
     else if a = SPI_CSCTRL then (s, ucast (csctrl s))
     else (s, 0))"

text \<open>
  A select line is driven only where the array is there and the slot has a line.
\<close>

definition cs_attached :: "G233SPIState \<Rightarrow> nat \<Rightarrow> bool" where
  "cs_attached s i = (case cs_lines s of None \<Rightarrow> False | Some l \<Rightarrow> l i)"

text \<open>
  \<open>g233_spi_write\<close>. \<open>ssi_transfer\<close> is the bus of QEMU (hw/ssi/ssi.c), not part of this
  repository: it is a parameter, a function from the state of what is on the bus and the
  word sent to the new state and the word received.
\<close>

definition g233_spi_write ::
  "('b \<Rightarrow> u32 \<Rightarrow> 'b \<times> u32) \<Rightarrow> G233SPIState \<times> 'b \<Rightarrow> u64 \<Rightarrow> u64 \<Rightarrow> u32 \<Rightarrow> G233SPIState \<times> 'b" where
  "g233_spi_write ssi_transfer sb a v sz =
    (let (s, ssi) = sb in
     if a = SPI_CR1 then (s\<lparr>cr1 := ucast v\<rparr>, ssi)
     else if a = SPI_CR2 then (g233_spi_update_irq (s\<lparr>cr2 := ucast v\<rparr>), ssi)
     else if a = SPI_SR then
       (g233_spi_update_irq
          (s\<lparr>sr := ucast ((ucast (sr s) :: u64) AND NOT (v AND ucast (SPI_SR_UDR OR SPI_SR_OVR)))\<rparr>),
        ssi)
     else if a = SPI_DR then
       (if cr1 s AND SPI_CR1_SPE \<noteq> 0 then
          (let overrun = (rx_fifo_has_data s \<and> sr s AND SPI_SR_RXNE \<noteq> 0);
               s1 = s\<lparr>dr_tx := ucast (v AND 0xFF)\<rparr>;
               s2 = s1\<lparr>sr := sr s1 AND NOT SPI_SR_TXE\<rparr>;
               s3 = s2\<lparr>sr := sr s2 OR SPI_SR_BSY\<rparr>;
               (ssi', rx) = ssi_transfer ssi (dr_tx s3);
               s4 = (if overrun then s3\<lparr>sr := sr s3 OR SPI_SR_OVR\<rparr> else s3);
               s5 = s4\<lparr>dr_rx := rx AND 0xFF\<rparr>;
               s6 = s5\<lparr>sr := sr s5 OR (SPI_SR_TXE OR SPI_SR_RXNE)\<rparr>;
               s7 = s6\<lparr>sr := sr s6 AND NOT SPI_SR_BSY\<rparr>;
               s8 = s7\<lparr>rx_fifo_has_data := True\<rparr>
           in (g233_spi_update_irq s8, ssi'))
        else (s, ssi))
     else if a = SPI_CSCTRL then
       (let s1 = s\<lparr>prev_csctrl := csctrl s\<rparr>;
            s2 = s1\<lparr>csctrl := ucast v\<rparr>;
            s3 = (if cs_attached s2 0
                  then (let cs0_active = (v AND 0x11 = 0x11)
                        in s2\<lparr>cs_level := (cs_level s2)(0 := \<not> cs0_active)\<rparr>)
                  else s2);
            s4 = (if cs_attached s3 1
                  then (let cs1_active = (v AND 0x22 = 0x22)
                        in s3\<lparr>cs_level := (cs_level s3)(1 := \<not> cs1_active)\<rparr>)
                  else s3)
        in (s4, ssi))
     else (s, ssi))"

text \<open>
  \<open>g233_spi_reset\<close>: the registers, then every attached select line is driven high.
\<close>

definition g233_spi_reset :: "G233SPIState \<Rightarrow> G233SPIState" where
  "g233_spi_reset s =
    (let s1 = s\<lparr>cr1 := 0, cr2 := 0, sr := 0x00000002, dr_tx := 0, dr_rx := 0, csctrl := 0,
                prev_csctrl := 0, rx_fifo_has_data := False, interrupt_count := 0\<rparr>
     in foldl (\<lambda>t i. if cs_attached t i then t\<lparr>cs_level := (cs_level t)(i := True)\<rparr> else t)
          s1 [0 ..< 4])"

text \<open>
  \<open>g233_spi_realize\<close> allocates the array of four select lines, none attached yet.
  Attaching a line to slot \<open>i\<close> is done by the board through
  \<open>qdev_connect_gpio_out_named\<close>, which stores the line in \<open>cs_lines[i]\<close>.
\<close>

definition g233_spi_realize :: "G233SPIState \<Rightarrow> G233SPIState" where
  "g233_spi_realize s = s\<lparr>cs_lines := Some (\<lambda>_. False)\<rparr>"

definition connect_cs :: "G233SPIState \<Rightarrow> nat \<Rightarrow> G233SPIState" where
  "connect_cs s i =
     s\<lparr>cs_lines := (case cs_lines s of None \<Rightarrow> None | Some l \<Rightarrow> Some (l(i := True)))\<rparr>"

definition g233_spi_new :: G233SPIState where
  "g233_spi_new =
     \<lparr>irq = False, cs_lines = None, cs_level = (\<lambda>_. False), cr1 = 0, cr2 = 0, sr = 0,
      dr_tx = 0, dr_rx = 0, csctrl = 0, prev_csctrl = 0, rx_fifo_has_data = False,
      interrupt_count = 0\<rparr>"

text \<open>The controller as a board with all four select lines wired leaves it after reset.\<close>

definition spi_init :: G233SPIState where
  "spi_init =
     g233_spi_reset
       (connect_cs (connect_cs (connect_cs (connect_cs (g233_spi_realize g233_spi_new) 0) 1) 2) 3)"

text \<open>
  The interrupt level as the specification words it, on the bits of the register map:
  \<open>CR2\<close> bit 6 receive, bit 7 transmit, bit 5 error interrupt enable; \<open>SR\<close> bit 0
  receive-not-empty, bit 1 transmit-empty, bit 2 underrun, bit 3 overrun.
\<close>

definition interrupt_level_spec :: "G233SPIState \<Rightarrow> bool" where
  "interrupt_level_spec t =
     (bit (cr2 t) 6 \<and> bit (sr t) 0 \<or> bit (cr2 t) 7 \<and> bit (sr t) 1 \<or>
      bit (cr2 t) 5 \<and> (bit (sr t) 2 \<or> bit (sr t) 3))"

section \<open>Concrete devices used as examples\<close>

text \<open>
  A 16-byte device in the middle of a page program of two bytes at address 15, one byte
  more than the storage holds.
\<close>

definition flash_overfull :: G233FlashState where
  "flash_overfull = fst (transfers (flash_init 16) [CMD_WREN, CMD_PP, 0x00, 0x00, 0x0F, 0x01, 0x02])"

text \<open>A 16-byte device in the middle of a page program of the bytes 7 and 8 at address 1.\<close>

definition flash_programming :: G233FlashState where
  "flash_programming = fst (transfers (flash_init 16) [CMD_WREN, CMD_PP, 0x00, 0x00, 0x01, 0x07, 0x08])"

text \<open>
  A 2 MiB device on which the bytes \<open>0x11\<close> and \<open>0x22\<close> have been programmed at the
  addresses \<open>0x001FFF\<close> and \<open>0x002000\<close>, the last byte of one sector and the first of
  the next, and which has then received \<open>WREN\<close>.
\<close>

definition flash_write_enabled :: G233FlashState where
  "flash_write_enabled =
     fst (g233_flash_transfer
            (g233_flash_set_cs
               (fst (transfers (flash_init (2 * 1024 * 1024))
                       [CMD_WREN, CMD_PP, 0x00, 0x1F, 0xFF, 0x11, 0x22]))
               False)
            CMD_WREN)"

text \<open>
  A 16-byte device (the \<open>size\<close> property set to 16) after \<open>WREN\<close>, \<open>SECTOR_ERASE\<close> and the
  first two bytes of the address \<open>0x000005\<close>: the next transfer completes the address.
\<close>

definition flash_small_erasing :: G233FlashState where
  "flash_small_erasing = fst (transfers (flash_init 16) [CMD_WREN, CMD_SE, 0x00, 0x00])"

text \<open>
  The controller with the flash on its bus: the bus hands each word to
  \<open>g233_flash_transfer\<close>. \<open>spi_enabled\<close> is the controller after \<open>CR1 := SPE\<close>,
  \<open>spi_rx_irq\<close> after \<open>CR2 := RXNEIE\<close> as well, \<open>spi_tx_irq\<close> the controller after
  reset and \<open>CR2 := TXEIE\<close>.
\<close>

definition spi_enabled :: G233SPIState where
  "spi_enabled = fst (g233_spi_write g233_flash_transfer (spi_init, flash_init 0) SPI_CR1 0x40 4)"

definition spi_rx_irq :: G233SPIState where
  "spi_rx_irq = fst (g233_spi_write g233_flash_transfer (spi_enabled, flash_init 0) SPI_CR2 0x40 4)"

definition spi_tx_irq :: G233SPIState where
  "spi_tx_irq = fst (g233_spi_write g233_flash_transfer (spi_init, flash_init 0) SPI_CR2 0x80 4)"

section \<open>One call of \<open>transfer\<close>, state by state\<close>

lemma ucast_u8_and_255: "(ucast (b :: u8) :: u32) AND 0xFF = ucast b"
proof -
  have "(ucast b :: u32) AND mask 8 = ucast b"
    by (rule bit_word_eqI) (auto simp: bit_simps dest: bit_imp_le_length)
  then show ?thesis by (simp add: mask_eq_exp_minus_1)
qed

lemma sint_eq_uint_small: "uint (w :: c_int) < 2 ^ 31 \<Longrightarrow> sint w = uint w"
proof -
  assume "uint w < 2 ^ 31"
  moreover have "- (2 ^ 31) \<le> (0 :: int)"
    by simp
  then have "- (2 ^ 31) \<le> uint w"
    by (rule order_trans) simp
  ultimately have "signed_take_bit 31 (uint w) = uint w"
    by (intro signed_take_bit_int_eq_self) simp_all
  then show ?thesis by (simp add: sint_uint)
qed

lemma transfer_IDLE:
  "state s = STATE_IDLE \<Longrightarrow> g233_flash_transfer s tx =
     (let s1 = s\<lparr>cmd := ucast tx\<rparr> in
      if tx = CMD_JEDEC_ID then (s1\<lparr>state := STATE_READING_ID, data_pos := 0\<rparr>, 0)
      else if tx = CMD_RDSR then (s1\<lparr>state := STATE_READING_SR\<rparr>, 0)
      else if tx = CMD_WREN then (s1\<lparr>write_enable := True\<rparr>, 0)
      else if tx = CMD_WRDI then (s1\<lparr>write_enable := False\<rparr>, 0)
      else if tx = CMD_READ then
        (s1\<lparr>state := STATE_READING_CMD, addr := 0, addr_bytes := 0\<rparr>, 0)
      else if tx = CMD_PP then
        (if write_enable s1
         then (s1\<lparr>state := STATE_READING_CMD, addr := 0, addr_bytes := 0, page_pos := 0\<rparr>, 0)
         else (s1, 0))
      else if tx = CMD_SE then
        (if write_enable s1
         then (s1\<lparr>state := STATE_READING_CMD, addr := 0, addr_bytes := 0\<rparr>, 0)
         else (s1, 0))
      else (s1, 0))"
  by (simp add: g233_flash_transfer_def Let_def)

lemma transfer_READING_ID:
  "state s = STATE_READING_ID \<Longrightarrow> g233_flash_transfer s tx =
     (if data_pos s <s 3
      then (s\<lparr>data_pos := data_pos s + 1\<rparr>, ucast (jedec_id s (sint (data_pos s))))
      else (s, 0xFF))"
  by (simp add: g233_flash_transfer_def Let_def ucast_u8_and_255)

lemma transfer_READING_SR:
  "state s = STATE_READING_SR \<Longrightarrow> g233_flash_transfer s tx =
     (s\<lparr>state := STATE_IDLE\<rparr>, ucast (status_reg s))"
  by (simp add: g233_flash_transfer_def Let_def ucast_u8_and_255)

lemma transfer_READING_CMD:
  "state s = STATE_READING_CMD \<Longrightarrow> g233_flash_transfer s tx =
     (let s1 = s\<lparr>addr := push_bit 8 (addr s) OR tx, addr_bytes := addr_bytes s + 1\<rparr> in
      if 3 \<le>s addr_bytes s1 then
        (if cmd s1 = 3 then (s1\<lparr>state := STATE_READING_DATA, data_pos := 0\<rparr>, 0)
         else if cmd s1 = 2 then (s1\<lparr>state := STATE_WRITING_DATA\<rparr>, 0)
         else if cmd s1 = 0x20 then
           (let sector_addr = addr s1 AND NOT 0xFFF;
                s2 = (if sector_addr < flash_size s1
                      then s1\<lparr>storage := memset (storage s1) (uint sector_addr) 0xFF 4096\<rparr>
                      else s1)
            in (s2\<lparr>write_enable := False, state := STATE_IDLE\<rparr>, 0))
         else (s1, 0))
      else (s1, 0))"
  by (simp add: g233_flash_transfer_def Let_def)

lemma transfer_READING_DATA:
  "state s = STATE_READING_DATA \<Longrightarrow> g233_flash_transfer s tx =
     (s\<lparr>data_pos := data_pos s + 1\<rparr>,
      if addr s + data_pos s < flash_size s
      then ucast (storage s (uint (addr s + data_pos s))) else 0xFF)"
  by (simp add: g233_flash_transfer_def Let_def ucast_u8_and_255)

lemma transfer_WRITING_DATA:
  "state s = STATE_WRITING_DATA \<Longrightarrow> g233_flash_transfer s tx =
     (if page_pos s <s 256
      then (s\<lparr>page_buf := (page_buf s)(sint (page_pos s) := ucast tx),
              page_pos := page_pos s + 1\<rparr>, 0)
      else (s, 0))"
  by (simp add: g233_flash_transfer_def Let_def)

lemma transfer_default:
  "state s = STATE_WRITING_SR \<or> state s = STATE_ERASING \<Longrightarrow>
   g233_flash_transfer s tx = (s\<lparr>state := STATE_IDLE\<rparr>, 0)"
  by (auto simp: g233_flash_transfer_def Let_def)

lemmas transfer_steps =
  transfer_IDLE transfer_READING_ID transfer_READING_SR transfer_READING_CMD
  transfer_READING_DATA transfer_WRITING_DATA

lemma g233_flash_cs_eq_set_cs: "g233_flash_cs s n level = g233_flash_set_cs s (level = 0)"
  by (simp add: g233_flash_cs_def g233_flash_set_cs_def)

lemma take_prefix_append: "k \<le> length xs \<Longrightarrow> take k (xs @ ys) = take k xs"
  by simp

lemma transfers_append:
  "transfers s (xs @ ys) =
     (fst (transfers (fst (transfers s xs)) ys),
      snd (transfers s xs) @ snd (transfers (fst (transfers s xs)) ys))"
  by (induction xs arbitrary: s) (simp_all add: split_beta Let_def)

section \<open>The example devices, field by field\<close>

lemma flash_init_fields:
  "state (flash_init sz) = STATE_IDLE" "write_enable (flash_init sz) = False"
  "page_pos (flash_init sz) = 0" "addr_bytes (flash_init sz) = 0"
  "flash_size (flash_init sz) = (if sz = 0 then 2 * 1024 * 1024 else sz)"
  by (simp_all add: flash_init_def g233_flash_reset_def g233_flash_realize_def
        g233_flash_new_def Let_def)

lemma flash_init_storage:
  "storage (flash_init sz) i =
     (if 0 \<le> i \<and> i < uint (if sz = 0 then 2 * 1024 * 1024 else sz) then 0xFF else 0)"
  by (simp add: flash_init_def g233_flash_reset_def g233_flash_realize_def g233_flash_new_def
        memset_def Let_def)

lemma flash_overfull_fields:
  "state flash_overfull = STATE_WRITING_DATA" "page_pos flash_overfull = 2"
  "addr flash_overfull = 15" "flash_size flash_overfull = 16" "write_enable flash_overfull"
  by (simp_all add: flash_overfull_def flash_init_fields transfer_steps Let_def
        word_sless_alt word_sle_eq)

lemma flash_programming_fields:
  "state flash_programming = STATE_WRITING_DATA" "page_pos flash_programming = 2"
  "addr flash_programming = 1" "flash_size flash_programming = 16"
  "page_buf flash_programming 0 = 7" "storage flash_programming 1 = 0xFF"
  by (simp_all add: flash_programming_def flash_init_fields flash_init_storage transfer_steps
        Let_def word_sless_alt word_sle_eq)

lemma flash_write_enabled_fields:
  "state flash_write_enabled = STATE_IDLE" "write_enable flash_write_enabled"
  "flash_size flash_write_enabled = 0x200000"
  "storage flash_write_enabled 0x1FFF = 0x11" "storage flash_write_enabled 0x2000 = 0x22"
  by (simp_all add: flash_write_enabled_def flash_init_fields transfer_steps g233_flash_set_cs_def
        memcpy_def Let_def word_sless_alt word_sle_eq)

section \<open>Claims about the flash device\<close>

text \<open>
  Claim C1 (end-to-end scenario). On a 2 MiB device that is idle, as it is after
  construction, write-enable, page-program of five bytes \<open>0xAB\<close> at address \<open>0x000010\<close>,
  deselect, then read at \<open>0x000010\<close>: the four transfers of the read command and its
  address return 0, and each of the five transfers that follow returns \<open>0xAB\<close>,
  whatever byte they send.
\<close>

theorem end_to_end_program_read:
  assumes "state s = STATE_IDLE" and "flash_size s = 2 * 1024 * 1024"
  shows "snd (transfers
                (g233_flash_set_cs
                   (fst (transfers s [CMD_WREN, CMD_PP, 0x00, 0x00, 0x10,
                                      0xAB, 0xAB, 0xAB, 0xAB, 0xAB]))
                   False)
                [CMD_READ, 0x00, 0x00, 0x10, d1, d2, d3, d4, d5]) =
         [0, 0, 0, 0, 0xAB, 0xAB, 0xAB, 0xAB, 0xAB]"
  using assms
  by (simp add: transfer_steps g233_flash_set_cs_def memcpy_def Let_def word_sless_alt word_sle_eq)

theorem end_to_end_program_read_witness:
  "state (flash_init (2 * 1024 * 1024)) = STATE_IDLE \<and>
   flash_size (flash_init (2 * 1024 * 1024)) = 2 * 1024 * 1024 \<and>
   storage (flash_init (2 * 1024 * 1024)) 0x10 = 0xFF \<and>
   storage (flash_init (2 * 1024 * 1024)) 0x14 = 0xFF \<and>
   snd (transfers
          (g233_flash_set_cs
             (fst (transfers (flash_init (2 * 1024 * 1024))
                     [CMD_WREN, CMD_PP, 0x00, 0x00, 0x10, 0xAB, 0xAB, 0xAB, 0xAB, 0xAB]))
             False)
          [CMD_READ, 0x00, 0x00, 0x10, 0, 0, 0, 0, 0]) =
   [0, 0, 0, 0, 0xAB, 0xAB, 0xAB, 0xAB, 0xAB]"
  using end_to_end_program_read [of "flash_init (2 * 1024 * 1024)" 0 0 0 0 0]
  by (simp add: flash_init_fields flash_init_storage)

subsection \<open>Page program: what the transfers and the select hook do to the storage\<close>

lemma writing_data_frame:
  "state s = STATE_WRITING_DATA \<Longrightarrow>
   state (fst (transfers s ds)) = STATE_WRITING_DATA \<and>
   storage (fst (transfers s ds)) = storage s"
  by (induction ds arbitrary: s) (simp_all add: transfer_WRITING_DATA split_beta)

lemma pp_header:
  assumes "state s = STATE_IDLE"
  shows "state (fst (transfers s [CMD_WREN, CMD_PP, a1, a2, a3])) = STATE_WRITING_DATA"
    and "storage (fst (transfers s [CMD_WREN, CMD_PP, a1, a2, a3])) = storage s"
  using assms
  by (simp_all add: transfer_IDLE transfer_READING_CMD Let_def word_sle_eq)

lemma pp_header_prefix:
  assumes "state s = STATE_IDLE" and "k < 5"
  shows "storage (fst (transfers s (take k [CMD_WREN, CMD_PP, a1, a2, a3]))) = storage s"
proof -
  from \<open>k < 5\<close> consider "k = 0" | "k = 1" | "k = 2" | "k = 3" | "k = 4"
    by linarith
  then show ?thesis
    using assms(1)
    by cases (simp_all add: transfer_IDLE transfer_READING_CMD Let_def word_sle_eq)
qed

text \<open>
  Claim C2 (program atomicity). From an idle device, after any number \<open>k\<close> of the
  transfers of a page-program transaction (\<open>WREN\<close>, \<open>PAGE_PROGRAM\<close>, three address
  bytes, then the data bytes \<open>ds\<close>) the storage is what it was before the first one.
  \<open>set_cs\<close> with the device selected changes nothing at all; \<open>set_cs\<close> with the device
  deselected changes the storage only if the state is \<open>WRITING_DATA\<close> and
  \<open>page_pos > 0\<close>.
\<close>

theorem program_atomicity:
  "(state s = STATE_IDLE \<longrightarrow>
      storage (fst (transfers s (take k ([CMD_WREN, CMD_PP, a1, a2, a3] @ ds)))) = storage s) \<and>
   g233_flash_set_cs s True = s \<and>
   (storage (g233_flash_set_cs s False) \<noteq> storage s \<longrightarrow>
      state s = STATE_WRITING_DATA \<and> 0 <s page_pos s)"
proof (intro conjI impI)
  assume idle: "state s = STATE_IDLE"
  let ?hdr = "[CMD_WREN, CMD_PP, a1, a2, a3]"
  show "storage (fst (transfers s (take k (?hdr @ ds)))) = storage s"
  proof (cases "k < 5")
    case True
    then have "take k (?hdr @ ds) = take k ?hdr"
      by (intro take_prefix_append) simp
    then show ?thesis
      using pp_header_prefix [OF idle True] by (simp only:)
  next
    case False
    have len: "length ?hdr = 5"
      by simp
    have "take k ?hdr = ?hdr"
      using False by simp
    then have "take k (?hdr @ ds) = ?hdr @ take (k - 5) ds"
      by (simp only: take_append len)
    then show ?thesis
      using pp_header [OF idle, of a1 a2 a3] writing_data_frame
      by (simp only: transfers_append fst_conv)
  qed
next
  show "g233_flash_set_cs s True = s"
    by (simp add: g233_flash_set_cs_def)
next
  assume "storage (g233_flash_set_cs s False) \<noteq> storage s"
  then show "state s = STATE_WRITING_DATA" and "0 <s page_pos s"
    by (auto simp: g233_flash_set_cs_def Let_def split: if_splits)
qed

lemma flash_programming_commit:
  "storage (g233_flash_set_cs flash_programming False) 1 = 7"
  by (simp add: g233_flash_set_cs_def flash_programming_fields memcpy_def Let_def word_sless_alt)

theorem program_atomicity_witness:
  "state (flash_init 16) = STATE_IDLE \<and>
   storage (fst (transfers (flash_init 16)
                   (take 7 ([CMD_WREN, CMD_PP, 0x00, 0x00, 0x01] @ [0x07, 0x08])))) =
     storage (flash_init 16) \<and>
   g233_flash_set_cs flash_programming True = flash_programming \<and>
   storage (g233_flash_set_cs flash_programming False) \<noteq> storage flash_programming \<and>
   state flash_programming = STATE_WRITING_DATA \<and> 0 <s page_pos flash_programming"
proof -
  have "storage (g233_flash_set_cs flash_programming False) 1 \<noteq> storage flash_programming 1"
    by (simp add: flash_programming_commit flash_programming_fields)
  then have differs: "storage (g233_flash_set_cs flash_programming False) \<noteq> storage flash_programming"
    by metis
  show ?thesis
    using program_atomicity [of "flash_init 16" 7 0 0 1 "[0x07, 0x08]"]
      program_atomicity [of flash_programming] differs
    by (simp add: flash_init_fields)
qed

text \<open>
  Claim C3 (write-enable gating). In the idle state with the write-enable latch clear,
  a transfer of \<open>PAGE_PROGRAM\<close> (\<open>0x02\<close>) or \<open>SECTOR_ERASE\<close> (\<open>0x20\<close>) leaves the storage
  as it is, leaves the state idle, and returns 0.
\<close>

theorem write_enable_gating:
  assumes "state s = STATE_IDLE" and "\<not> write_enable s" and "tx = CMD_PP \<or> tx = CMD_SE"
  shows "storage (fst (g233_flash_transfer s tx)) = storage s \<and>
         state (fst (g233_flash_transfer s tx)) = STATE_IDLE \<and>
         snd (g233_flash_transfer s tx) = 0"
  using assms by (auto simp: transfer_IDLE)

theorem write_enable_gating_witness:
  "state (flash_init 16) = STATE_IDLE \<and> \<not> write_enable (flash_init 16) \<and>
   storage (fst (g233_flash_transfer (flash_init 16) CMD_SE)) = storage (flash_init 16) \<and>
   state (fst (g233_flash_transfer (flash_init 16) CMD_SE)) = STATE_IDLE \<and>
   snd (g233_flash_transfer (flash_init 16) CMD_SE) = 0"
  using write_enable_gating [of "flash_init 16" CMD_SE]
  by (simp add: flash_init_fields)

subsection \<open>Sector erase\<close>

lemma address_bytes_reassemble:
  fixes A :: u32
  shows "push_bit 8 (push_bit 8 (drop_bit 16 A) OR (drop_bit 8 A AND 0xFF)) OR (A AND 0xFF) = A"
proof -
  have "push_bit 8 (push_bit 8 (drop_bit 16 A) OR (drop_bit 8 A AND mask 8)) OR (A AND mask 8) = A"
  proof (rule bit_word_eqI)
    fix n
    assume n: "n < LENGTH(32)"
    consider "n < 8" | "8 \<le> n" "n < 16" | "16 \<le> n"
      by linarith
    then show "bit (push_bit 8 (push_bit 8 (drop_bit 16 A) OR (drop_bit 8 A AND mask 8))
                    OR (A AND mask 8)) n = bit A n"
      using n by cases (auto simp: bit_simps)
  qed
  then show ?thesis
    by (simp add: mask_eq_exp_minus_1)
qed

lemma sector_erase_transaction:
  assumes "state s = STATE_IDLE" and "write_enable s"
  shows "fst (transfers s [CMD_SE, a1, a2, a3]) =
     (let A = push_bit 8 (push_bit 8 a1 OR a2) OR a3; sector_addr = A AND NOT 0xFFF in
      s\<lparr>cmd := 0x20, addr := A, addr_bytes := 3,
        storage := (if sector_addr < flash_size s
                    then memset (storage s) (uint sector_addr) 0xFF 4096 else storage s),
        write_enable := False, state := STATE_IDLE\<rparr>)"
  using assms
  by (simp add: transfer_IDLE transfer_READING_CMD Let_def word_sle_eq)

lemma sector_base_shift:
  fixes A :: u32
  shows "A AND NOT 0xFFF = push_bit 12 (drop_bit 12 A)"
proof -
  have "A AND NOT (mask 12) = push_bit 12 (drop_bit 12 A)"
    by (rule bit_word_eqI) (auto simp: bit_simps)
  then show ?thesis
    by (simp add: mask_eq_exp_minus_1)
qed

lemma sector_base_aligned:
  fixes A :: u32
  shows "4096 dvd uint (A AND NOT 0xFFF)"
proof -
  have "uint (push_bit 12 (drop_bit 12 A)) = (4096 * uint (drop_bit 12 A)) mod 2 ^ 32"
    by (simp add: uint_word_ariths push_bit_eq_mult take_bit_eq_mod mult.commute)
  moreover have "(4096 :: int) dvd 2 ^ 32"
    by simp
  ultimately show ?thesis
    unfolding sector_base_shift by (simp add: dvd_mod_iff)
qed

lemma sector_within_storage:
  fixes A sz :: u32
  assumes "4096 dvd uint sz" and "A AND NOT 0xFFF < sz"
  shows "uint (A AND NOT 0xFFF) + 4096 \<le> uint sz"
proof -
  have "uint (A AND NOT 0xFFF) < uint sz"
    using assms(2) by (simp add: word_less_def)
  with assms(1) sector_base_aligned [of A] show ?thesis
    by (elim dvdE) auto
qed

lemma sector_erase_last_call:
  assumes "state s = STATE_IDLE" and "write_enable s"
  shows "g233_flash_transfer_in_bounds (fst (transfers s [CMD_SE, a1, a2])) a3 =
     (let sector_addr = (push_bit 8 (push_bit 8 a1 OR a2) OR a3) AND NOT 0xFFF
      in if sector_addr < flash_size s then uint sector_addr + 4096 \<le> uint (flash_size s)
         else True)"
  using assms
  by (simp add: transfer_IDLE transfer_READING_CMD g233_flash_transfer_in_bounds_def Let_def
        word_sle_eq)

text \<open>
  Where the sector lies inside the storage, the erase does what claim C4 says. From an
  idle device with the latch set, \<open>SECTOR_ERASE\<close> followed by the three bytes of a 24-bit
  address \<open>A\<close>, most significant first: with \<open>sectorBase = A & ~0xFFF\<close>, if
  \<open>sectorBase < size\<close> the bytes \<open>sectorBase .. sectorBase + 4095\<close> of the storage are
  \<open>0xFF\<close> and every other byte is what it was; if not, every byte is what it was. Either
  way the latch is clear, the state is idle, and the call that completes the address
  stays inside the storage. The sector lies inside the storage whenever it starts below
  \<open>size\<close> and \<open>size\<close> is a multiple of 4096, as it is for the 2 MiB and 4 MiB parts.
\<close>

lemma sector_erase_in_block:
  fixes A :: u32
  assumes "state s = STATE_IDLE" and "write_enable s" and "A < 2 ^ 24"
    and fits: "A AND NOT 0xFFF < flash_size s \<Longrightarrow>
               uint (A AND NOT 0xFFF) + 4096 \<le> uint (flash_size s)"
  defines "s' \<equiv> fst (transfers s [CMD_SE, drop_bit 16 A, drop_bit 8 A AND 0xFF, A AND 0xFF])"
  defines "sectorBase \<equiv> A AND NOT 0xFFF"
  shows "storage s' i =
           (if sectorBase < flash_size s \<and> uint sectorBase \<le> i \<and> i \<le> uint sectorBase + 4095
            then 0xFF else storage s i) \<and>
         \<not> write_enable s' \<and> state s' = STATE_IDLE \<and>
         g233_flash_transfer_in_bounds
           (fst (transfers s [CMD_SE, drop_bit 16 A, drop_bit 8 A AND 0xFF])) (A AND 0xFF)"
proof -
  have "s' = s\<lparr>cmd := 0x20, addr := A, addr_bytes := 3,
        storage := (if sectorBase < flash_size s
                    then memset (storage s) (uint sectorBase) 0xFF 4096 else storage s),
        write_enable := False, state := STATE_IDLE\<rparr>"
    unfolding s'_def sectorBase_def
    by (simp only: sector_erase_transaction [OF assms(1,2)] address_bytes_reassemble Let_def)
  moreover have "g233_flash_transfer_in_bounds
      (fst (transfers s [CMD_SE, drop_bit 16 A, drop_bit 8 A AND 0xFF])) (A AND 0xFF)"
    using fits
    by (simp only: sector_erase_last_call [OF assms(1,2)] address_bytes_reassemble Let_def)
      simp
  ultimately show ?thesis
    by (simp add: memset_def)
qed

lemma sector_erase_aligned_size:
  fixes A :: u32
  assumes "state s = STATE_IDLE" and "write_enable s" and "A < 2 ^ 24"
    and "4096 dvd uint (flash_size s)"
  defines "s' \<equiv> fst (transfers s [CMD_SE, drop_bit 16 A, drop_bit 8 A AND 0xFF, A AND 0xFF])"
  defines "sectorBase \<equiv> A AND NOT 0xFFF"
  shows "storage s' i =
           (if sectorBase < flash_size s \<and> uint sectorBase \<le> i \<and> i \<le> uint sectorBase + 4095
            then 0xFF else storage s i) \<and>
         \<not> write_enable s' \<and> state s' = STATE_IDLE \<and>
         g233_flash_transfer_in_bounds
           (fst (transfers s [CMD_SE, drop_bit 16 A, drop_bit 8 A AND 0xFF])) (A AND 0xFF)"
  unfolding s'_def sectorBase_def
  by (rule sector_erase_in_block [OF assms(1-3)]) (rule sector_within_storage [OF assms(4)])

lemma sector_erase_example:
  "storage flash_write_enabled 0x1FFF = 0x11 \<and>
   storage (fst (transfers flash_write_enabled [CMD_SE, 0x00, 0x12, 0x34])) 0x1FFF = 0xFF \<and>
   storage (fst (transfers flash_write_enabled [CMD_SE, 0x00, 0x12, 0x34])) 0x2000 = 0x22 \<and>
   \<not> write_enable (fst (transfers flash_write_enabled [CMD_SE, 0x00, 0x12, 0x34])) \<and>
   state (fst (transfers flash_write_enabled [CMD_SE, 0x00, 0x12, 0x34])) = STATE_IDLE \<and>
   g233_flash_transfer_in_bounds (fst (transfers flash_write_enabled [CMD_SE, 0x00, 0x12])) 0x34"
  using sector_erase_aligned_size [of flash_write_enabled "0x001234" "0x1FFF"]
    sector_erase_aligned_size [of flash_write_enabled "0x001234" "0x2000"]
  by (simp add: flash_write_enabled_fields)

lemma flash_small_erasing_fields:
  "state flash_small_erasing = STATE_READING_CMD" "cmd flash_small_erasing = 0x20"
  "addr flash_small_erasing = 0" "addr_bytes flash_small_erasing = 2"
  "flash_size flash_small_erasing = 16"
  by (simp_all add: flash_small_erasing_def flash_init_fields transfer_steps
        Let_def word_sle_eq)

text \<open>
  Claim C4 (erase alignment). The source checks that the sector starts below \<open>size\<close>
  and not that it ends there, so on a device whose size is not a multiple of 4096 the
  erase leaves the storage. On the 16-byte device \<open>flash_small_erasing\<close>, in the middle
  of a sector erase, the transfer of the last address byte \<open>0x05\<close> gives the address
  \<open>0x000005\<close> and the sector base 0, which is below the size 16; the call is not inside
  the storage: it writes \<open>0xFF\<close> at offset 16, the first byte after the block, and on to
  offset 4095.
\<close>

theorem sector_erase_past_block:
  "state flash_small_erasing = STATE_READING_CMD \<and> cmd flash_small_erasing = 0x20 \<and>
   flash_size flash_small_erasing = 16 \<and>
   addr (fst (g233_flash_transfer flash_small_erasing 0x05)) = 0x000005 \<and>
   (0x000005 AND NOT 0xFFF :: u32) < flash_size flash_small_erasing \<and>
   \<not> g233_flash_transfer_in_bounds flash_small_erasing 0x05 \<and>
   storage (fst (g233_flash_transfer flash_small_erasing 0x05)) 16 = 0xFF \<and>
   storage (fst (g233_flash_transfer flash_small_erasing 0x05)) 4095 = 0xFF"
  by (simp add: transfer_READING_CMD g233_flash_transfer_in_bounds_def flash_small_erasing_fields
        memset_def Let_def word_sle_eq)

subsection \<open>Deselecting the device\<close>

text \<open>
  Claim C8 (deselect with the page out of bounds). As stated the claim fails: the latch
  is cleared although nothing is copied. On the 16-byte device \<open>flash_overfull\<close>
  (two bytes buffered for address 15) the state is \<open>WRITING_DATA\<close>, \<open>page_pos > 0\<close>,
  \<open>addr + page_pos\<close> exceeds the size, the latch is set before the call and clear after.
\<close>

theorem set_cs_out_of_bounds_clears_latch:
  "state flash_overfull = STATE_WRITING_DATA \<and> 0 <s page_pos flash_overfull \<and>
   uint (flash_size flash_overfull) < uint (addr flash_overfull) + sint (page_pos flash_overfull) \<and>
   write_enable flash_overfull \<and>
   \<not> write_enable (g233_flash_set_cs flash_overfull False)"
  by (simp add: g233_flash_set_cs_def flash_overfull_fields Let_def word_sless_alt)

text \<open>
  Claim C8 as amended. When \<open>set_cs\<close> deselects the device in state \<open>WRITING_DATA\<close> with
  \<open>page_pos > 0\<close> and \<open>addr + page_pos\<close> (in 32-bit arithmetic, as the source computes
  it) above the size, the storage is not touched but the latch is cleared: the latch is
  cleared exactly when the state is \<open>WRITING_DATA\<close> and \<open>page_pos > 0\<close>, copy or no copy.
  In all cases the call leaves the state idle and \<open>data_pos\<close>, \<open>page_pos\<close>, \<open>addr\<close> and
  \<open>addr_bytes\<close> zero.
\<close>

theorem set_cs_out_of_bounds:
  "(state s = STATE_WRITING_DATA \<and> 0 <s page_pos s \<and> \<not> addr s + page_pos s \<le> flash_size s \<longrightarrow>
      storage (g233_flash_set_cs s False) = storage s \<and>
      \<not> write_enable (g233_flash_set_cs s False)) \<and>
   write_enable (g233_flash_set_cs s False) =
     (write_enable s \<and> \<not> (state s = STATE_WRITING_DATA \<and> 0 <s page_pos s)) \<and>
   state (g233_flash_set_cs s False) = STATE_IDLE \<and>
   data_pos (g233_flash_set_cs s False) = 0 \<and>
   page_pos (g233_flash_set_cs s False) = 0 \<and>
   addr (g233_flash_set_cs s False) = 0 \<and>
   addr_bytes (g233_flash_set_cs s False) = 0"
  by (simp add: g233_flash_set_cs_def Let_def)

theorem set_cs_out_of_bounds_witness:
  "state flash_overfull = STATE_WRITING_DATA \<and> 0 <s page_pos flash_overfull \<and>
   \<not> addr flash_overfull + page_pos flash_overfull \<le> flash_size flash_overfull \<and>
   storage (g233_flash_set_cs flash_overfull False) = storage flash_overfull \<and>
   \<not> write_enable (g233_flash_set_cs flash_overfull False) \<and>
   state (g233_flash_set_cs flash_overfull False) = STATE_IDLE \<and>
   page_pos (g233_flash_set_cs flash_overfull False) = 0"
  using set_cs_out_of_bounds [of flash_overfull]
  by (simp add: flash_overfull_fields word_sless_alt)

subsection \<open>The invariant of the state machine\<close>

lemma uint_succ_small: "uint (w :: c_int) < k \<Longrightarrow> k \<le> 2 ^ 31 \<Longrightarrow> uint (w + 1) = uint w + 1"
  by (simp add: uint_word_ariths take_bit_int_eq_self)

lemma sless_256_small: "uint (w :: c_int) \<le> 256 \<Longrightarrow> (w <s 256) = (uint w < 256)"
  by (simp add: word_sless_alt sint_eq_uint_small)

lemma sle_3_small: "uint (w :: c_int) \<le> 3 \<Longrightarrow> (3 \<le>s w) = (3 \<le> uint w)"
  by (simp add: word_sle_eq sint_eq_uint_small)

lemma small_sle_256: "uint (w :: c_int) \<le> 256 \<Longrightarrow> w \<le>s 256"
  by (simp add: word_sle_eq sint_eq_uint_small)

lemma small_sle_3: "uint (w :: c_int) \<le> 3 \<Longrightarrow> w \<le>s 3"
  by (simp add: word_sle_eq sint_eq_uint_small)

lemma flash_inv_transfer:
  assumes inv: "flash_inv s"
  shows "flash_inv (fst (g233_flash_transfer s tx))"
proof (cases "state s")
  case STATE_IDLE
  with inv show ?thesis
    by (auto simp: transfer_IDLE flash_inv_def Let_def)
next
  case STATE_READING_CMD
  with inv have ab: "uint (addr_bytes s) < 3" and c: "cmd s = 3 \<or> cmd s = 2 \<or> cmd s = 0x20"
    by (auto simp: flash_inv_def)
  have u: "uint (addr_bytes s + 1) = uint (addr_bytes s) + 1"
    using ab by (simp add: uint_succ_small [where k = 3])
  have sl: "(3 \<le>s addr_bytes s + 1) = (3 \<le> uint (addr_bytes s + 1))"
    by (rule sle_3_small) (use ab u in simp)
  show ?thesis
    using inv STATE_READING_CMD ab c u
    by (auto simp: transfer_READING_CMD flash_inv_def Let_def sl)
next
  case STATE_WRITING_DATA
  from inv have pp: "uint (page_pos s) \<le> 256"
    by (simp add: flash_inv_def)
  show ?thesis
  proof (cases "uint (page_pos s) < 256")
    case True
    then have "uint (page_pos s + 1) = uint (page_pos s) + 1"
      by (simp add: uint_succ_small [where k = 256])
    then show ?thesis
      using inv STATE_WRITING_DATA True
      by (auto simp: transfer_WRITING_DATA flash_inv_def)
  next
    case False
    then show ?thesis
      using inv STATE_WRITING_DATA pp
      by (simp add: transfer_WRITING_DATA flash_inv_def sless_256_small)
  qed
qed (use inv in \<open>auto simp: transfer_steps transfer_default flash_inv_def\<close>)

lemma flash_inv_set_cs: "flash_inv s \<Longrightarrow> flash_inv (g233_flash_set_cs s select)"
  by (auto simp: g233_flash_set_cs_def flash_inv_def Let_def)

lemma flash_inv_reset: "flash_inv (g233_flash_reset s)"
  by (simp add: g233_flash_reset_def flash_inv_def)

lemma flash_inv_step: "flash_inv s \<Longrightarrow> flash_inv (flash_step s op)"
  by (cases op)
    (simp_all add: flash_inv_transfer flash_inv_set_cs flash_inv_reset g233_flash_cs_eq_set_cs)

lemma flash_inv_run: "flash_inv s \<Longrightarrow> flash_inv (flash_run s ops)"
  unfolding flash_run_def by (induction ops arbitrary: s) (simp_all add: flash_inv_step)

lemma flash_inv_init: "flash_inv (flash_init sz)"
  by (simp add: flash_init_def flash_inv_reset)

text \<open>
  Claim C9 (the counters stay in range). In every state reached from the constructed and
  reset device, of any size, by any run of \<open>transfer\<close> (any word), \<open>set_cs\<close> and the GPIO
  handler (any level) and reset, \<open>page_pos \<le> 256\<close> and \<open>addr_bytes \<le> 3\<close>; and so they
  are after one more call of any of them.
\<close>

theorem flash_counters_bounded:
  "page_pos (flash_run (flash_init sz) ops) \<le>s 256 \<and>
   addr_bytes (flash_run (flash_init sz) ops) \<le>s 3 \<and>
   page_pos (flash_step (flash_run (flash_init sz) ops) op) \<le>s 256 \<and>
   addr_bytes (flash_step (flash_run (flash_init sz) ops) op) \<le>s 3"
proof -
  have "flash_inv (flash_run (flash_init sz) ops)"
    by (rule flash_inv_run [OF flash_inv_init])
  moreover from this have "flash_inv (flash_step (flash_run (flash_init sz) ops) op)"
    by (rule flash_inv_step)
  ultimately show ?thesis
    by (simp add: flash_inv_def small_sle_256 small_sle_3)
qed

theorem flash_counters_bounded_witness:
  "page_pos (flash_run (flash_init 16) [Transfer CMD_WREN, Transfer CMD_PP, Transfer 0]) \<le>s 256 \<and>
   addr_bytes (flash_run (flash_init 16) [Transfer CMD_WREN, Transfer CMD_PP, Transfer 0]) \<le>s 3 \<and>
   page_pos (flash_step (flash_run (flash_init 16) [Transfer CMD_WREN, Transfer CMD_PP, Transfer 0])
               (Transfer 0)) \<le>s 256 \<and>
   addr_bytes (flash_step (flash_run (flash_init 16) [Transfer CMD_WREN, Transfer CMD_PP, Transfer 0])
                 (Transfer 0)) \<le>s 3"
  using flash_counters_bounded [of 16 "[Transfer CMD_WREN, Transfer CMD_PP, Transfer 0]" "Transfer 0"]
  by simp

subsection \<open>The calls stay inside the arrays\<close>

text \<open>
  On a device whose size is a multiple of 4096, as for the 2 MiB and 4 MiB parts, that is
  driven with bytes, every call of every entry point stays inside \<open>storage\<close>,
  \<open>page_buf\<close> and \<open>jedec_id\<close>, whatever the run that came before.
\<close>

lemma uint_or_le_plus: "uint (x OR y :: u32) \<le> uint x + uint y"
proof -
  have "(uint x AND uint y) + (uint x OR uint y) = uint x + uint y"
    by (rule plus_and_or)
  moreover have "0 \<le> (uint x AND uint y)"
    by simp
  ultimately have "(uint x OR uint y) \<le> uint x + uint y"
    by linarith
  then show ?thesis
    by (simp add: uint_or)
qed

lemma uint_push_bit_8_le: "uint (push_bit 8 a :: u32) \<le> 256 * uint a"
proof -
  have "uint (push_bit 8 a) = (256 * uint a) mod 2 ^ 32"
    by (simp add: uint_word_ariths push_bit_eq_mult take_bit_eq_mod mult.commute)
  also have "\<dots> \<le> 256 * uint a"
    by (rule zmod_le_nonneg_dividend) simp
  finally show ?thesis .
qed

lemma addr_shift_bound:
  fixes a tx :: u32
  assumes "uint a \<le> k" and "tx \<le> 0xFF"
  shows "uint (push_bit 8 a OR tx) \<le> 256 * k + 255"
proof -
  have "uint tx \<le> 255"
    using assms(2) by (simp add: word_le_def)
  with uint_or_le_plus [of "push_bit 8 a" tx] uint_push_bit_8_le [of a] assms(1)
  show ?thesis by linarith
qed


lemma small_nonneg: "uint (w :: c_int) \<le> 256 \<Longrightarrow> 0 \<le>s w"
  by (simp add: word_sle_eq sint_eq_uint_small)

lemma small_sint: "uint (w :: c_int) \<le> 256 \<Longrightarrow> sint w = uint w"
  by (simp add: sint_eq_uint_small)

lemma sless_3_small: "uint (w :: c_int) \<le> 3 \<Longrightarrow> (w <s 3) = (uint w < 3)"
  by (simp add: word_sless_alt sint_eq_uint_small)

lemma flash_size_transfer: "flash_size (fst (g233_flash_transfer s tx)) = flash_size s"
  by (cases "state s") (auto simp: transfer_steps transfer_default Let_def)

lemma flash_size_set_cs: "flash_size (g233_flash_set_cs s select) = flash_size s"
  by (simp add: g233_flash_set_cs_def Let_def)

lemma sector_within_storage_simp:
  fixes A sz :: u32
  assumes "4096 dvd uint sz" and "A AND - 4096 < sz"
  shows "uint (A AND - 4096) + 4096 \<le> uint sz"
  using sector_within_storage [OF assms(1), of A] assms(2) by simp

lemma flash_safe_transfer_in_bounds:
  assumes "flash_safe s"
  shows "g233_flash_transfer_in_bounds s tx"
proof (cases "state s")
  case STATE_READING_ID
  with assms show ?thesis
    by (simp add: g233_flash_transfer_in_bounds_def flash_safe_def small_nonneg)
next
  case STATE_READING_CMD
  with assms show ?thesis
    by (auto simp: g233_flash_transfer_in_bounds_def flash_safe_def Let_def
          intro: sector_within_storage_simp)
next
  case STATE_WRITING_DATA
  with assms show ?thesis
    by (simp add: g233_flash_transfer_in_bounds_def flash_safe_def flash_inv_def small_nonneg)
qed (simp_all add: g233_flash_transfer_in_bounds_def)

lemma flash_safe_set_cs_in_bounds:
  assumes "flash_safe s"
  shows "g233_flash_set_cs_in_bounds s select"
proof (cases "\<not> select \<and> state s = STATE_WRITING_DATA \<and> 0 <s page_pos s \<and>
        addr s + page_pos s \<le> flash_size s")
  case True
  with assms have pp: "uint (page_pos s) \<le> 256" and ad: "uint (addr s) \<le> 0xFFFFFF"
    by (simp_all add: flash_safe_def flash_inv_def)
  have "uint (addr s) + uint (page_pos s) < 2 ^ LENGTH(32)"
    using pp ad by simp
  then have "uint (addr s + page_pos s) = uint (addr s) + uint (page_pos s)"
    by (rule uint_add_lem [THEN iffD1])
  moreover have "uint (addr s + page_pos s) \<le> uint (flash_size s)"
    using True by (simp add: word_le_def)
  ultimately show ?thesis
    using pp by (simp add: g233_flash_set_cs_in_bounds_def small_sint)
next
  case False
  then show ?thesis
    by (auto simp: g233_flash_set_cs_in_bounds_def)
qed

lemma flash_safe_step_in_bounds: "flash_safe s \<Longrightarrow> flash_step_in_bounds s op"
  by (cases op) (simp_all add: flash_safe_transfer_in_bounds flash_safe_set_cs_in_bounds)


lemma flash_safe_transfer:
  assumes safe: "flash_safe s" and byte: "tx \<le> 0xFF"
  shows "flash_safe (fst (g233_flash_transfer s tx))"
proof -
  from safe have inv: "flash_inv s"
    by (simp add: flash_safe_def)
  have inv': "flash_inv (fst (g233_flash_transfer s tx))"
    by (rule flash_inv_transfer [OF inv])
  have size': "4096 dvd uint (flash_size (fst (g233_flash_transfer s tx)))"
    using safe by (simp add: flash_size_transfer flash_safe_def)
  show ?thesis
  proof (cases "state s")
    case STATE_IDLE
    with inv' size' show ?thesis
      by (auto simp: flash_safe_def transfer_IDLE Let_def)
  next
    case STATE_READING_ID
    with safe have dp: "uint (data_pos s) \<le> 3"
      by (simp add: flash_safe_def)
    show ?thesis
    proof (cases "uint (data_pos s) < 3")
      case True
      then have "uint (data_pos s + 1) = uint (data_pos s) + 1"
        by (simp add: uint_succ_small [where k = 3])
      with True inv' size' STATE_READING_ID show ?thesis
        by (auto simp: flash_safe_def transfer_READING_ID)
    next
      case False
      with dp inv' size' STATE_READING_ID show ?thesis
        by (auto simp: flash_safe_def transfer_READING_ID sless_3_small)
    qed
  next
    case STATE_READING_CMD
    with inv have ab: "uint (addr_bytes s) < 3"
      and c: "cmd s = 3 \<or> cmd s = 2 \<or> cmd s = 0x20"
      by (simp_all add: flash_inv_def)
    have u: "uint (addr_bytes s + 1) = uint (addr_bytes s) + 1"
      using ab by (simp add: uint_succ_small [where k = 3])
    have sl: "(3 \<le>s addr_bytes s + 1) = (3 \<le> uint (addr_bytes s + 1))"
      by (rule sle_3_small) (use ab u in simp)
    from safe STATE_READING_CMD
    have bound: "uint (addr s) \<le> (if uint (addr_bytes s) = 0 then 0
                               else if uint (addr_bytes s) = 1 then 0xFF else 0xFFFF)"
      by (simp add: flash_safe_def)
    have ab_cases: "uint (addr_bytes s) = 0 \<or> uint (addr_bytes s) = 1 \<or> uint (addr_bytes s) = 2"
      using ab uint_ge_0 [of "addr_bytes s"] by arith
    have new: "uint (push_bit 8 (addr s) OR tx) \<le>
        (if uint (addr_bytes s) = 0 then 0xFF else if uint (addr_bytes s) = 1 then 0xFFFF
         else 0xFFFFFF)"
      using ab_cases bound addr_shift_bound [OF _ byte, of "addr s" 0]
        addr_shift_bound [OF _ byte, of "addr s" "0xFF"]
        addr_shift_bound [OF _ byte, of "addr s" "0xFFFF"]
      by auto
    show ?thesis
      using inv' size' STATE_READING_CMD ab_cases new u c
      by (auto simp: flash_safe_def transfer_READING_CMD Let_def sl)
  next
    case STATE_READING_DATA
    with inv' size' show ?thesis
      by (auto simp: flash_safe_def transfer_READING_DATA)
  next
    case STATE_READING_SR
    with inv' size' show ?thesis
      by (auto simp: flash_safe_def transfer_READING_SR)
  next
    case STATE_WRITING_DATA
    with inv' size' safe show ?thesis
      by (auto simp: flash_safe_def transfer_WRITING_DATA)
  next
    case STATE_WRITING_SR
    with inv' size' show ?thesis
      by (auto simp: flash_safe_def transfer_default)
  next
    case STATE_ERASING
    with inv' size' show ?thesis
      by (auto simp: flash_safe_def transfer_default)
  qed
qed

lemma flash_safe_set_cs: "flash_safe s \<Longrightarrow> flash_safe (g233_flash_set_cs s select)"
  using flash_inv_set_cs [of s select]
  by (auto simp: flash_safe_def g233_flash_set_cs_def Let_def)

lemma flash_safe_reset: "4096 dvd uint (flash_size s) \<Longrightarrow> flash_safe (g233_flash_reset s)"
  using flash_inv_reset [of s]
  by (simp add: flash_safe_def g233_flash_reset_def)

lemma flash_safe_size: "flash_safe s \<Longrightarrow> 4096 dvd uint (flash_size s)"
  by (simp add: flash_safe_def)

lemma flash_safe_step: "flash_safe s \<Longrightarrow> byte_op op \<Longrightarrow> flash_safe (flash_step s op)"
  by (cases op)
    (simp_all add: flash_safe_transfer flash_safe_set_cs flash_safe_reset g233_flash_cs_eq_set_cs
       flash_safe_size)

lemma flash_safe_run: "flash_safe s \<Longrightarrow> list_all byte_op ops \<Longrightarrow> flash_safe (flash_run s ops)"
  unfolding flash_run_def by (induction ops arbitrary: s) (simp_all add: flash_safe_step)

lemma flash_safe_init:
  "4096 dvd uint (if sz = 0 then 2 * 1024 * 1024 else sz) \<Longrightarrow> flash_safe (flash_init sz)"
  unfolding flash_init_def
  by (rule flash_safe_reset)
    (simp add: g233_flash_realize_def g233_flash_new_def Let_def split: if_splits)

lemma flash_calls_in_bounds:
  assumes "4096 dvd uint (if sz = 0 then 2 * 1024 * 1024 else sz)" and "list_all byte_op ops"
  shows "flash_step_in_bounds (flash_run (flash_init sz) ops) op"
  by (rule flash_safe_step_in_bounds) (rule flash_safe_run [OF flash_safe_init [OF assms(1)] assms(2)])

section \<open>The controller: bit tests and single accesses\<close>

lemma and_bit_test:
  fixes w :: u32
  shows "(w AND 0x01 \<noteq> 0) = bit w 0" and "(w AND 0x02 \<noteq> 0) = bit w 1"
    and "(w AND 0x04 \<noteq> 0) = bit w 2" and "(w AND 0x08 \<noteq> 0) = bit w 3"
    and "(w AND 0x20 \<noteq> 0) = bit w 5" and "(w AND 0x40 \<noteq> 0) = bit w 6"
    and "(w AND 0x80 \<noteq> 0) = bit w 7"
  using and_exp_eq_0_iff_not_bit [of w 0] and_exp_eq_0_iff_not_bit [of w 1]
    and_exp_eq_0_iff_not_bit [of w 2] and_exp_eq_0_iff_not_bit [of w 3]
    and_exp_eq_0_iff_not_bit [of w 5] and_exp_eq_0_iff_not_bit [of w 6]
    and_exp_eq_0_iff_not_bit [of w 7]
  by simp_all

lemma and_err_test:
  fixes w :: u32
  shows "(w AND 0x0C \<noteq> 0) = (bit w 2 \<or> bit w 3)"
proof -
  have "(0x0C :: u32) = 0x04 OR 0x08"
    by simp
  then have "w AND 0x0C = (w AND 0x04) OR (w AND 0x08)"
    by (simp only: bit.conj_disj_distrib)
  then show ?thesis
    by (simp only: or_eq_0_iff and_bit_test [symmetric] de_Morgan_conj)
qed

lemma and_two_bits:
  fixes v :: "'a::len word"
  assumes "i < LENGTH('a)" and "j < LENGTH('a)"
  shows "(v AND (2 ^ i OR 2 ^ j) = 2 ^ i OR 2 ^ j) = (bit v i \<and> bit v j)"
proof
  assume h: "v AND (2 ^ i OR 2 ^ j) = 2 ^ i OR 2 ^ j"
  have "bit (v AND (2 ^ i OR 2 ^ j)) i" and "bit (v AND (2 ^ i OR 2 ^ j)) j"
    unfolding h using assms by (simp_all add: bit_simps)
  then show "bit v i \<and> bit v j"
    by (simp add: bit_and_iff)
next
  assume h: "bit v i \<and> bit v j"
  show "v AND (2 ^ i OR 2 ^ j) = 2 ^ i OR 2 ^ j"
  proof (rule bit_word_eqI)
    fix n
    assume "n < LENGTH('a)"
    then show "bit (v AND (2 ^ i OR 2 ^ j)) n = bit (2 ^ i OR 2 ^ j :: 'a word) n"
      using h by (auto simp: bit_simps)
  qed
qed

lemma and_pair_test:
  fixes v :: u64
  shows "(v AND 0x11 = 0x11) = (bit v 0 \<and> bit v 4)"
    and "(v AND 0x22 = 0x22) = (bit v 1 \<and> bit v 5)"
  using and_two_bits [of 0 4 v] and_two_bits [of 1 5 v]
  by simp_all

lemma update_irq_level:
  "irq (g233_spi_update_irq s) =
     (bit (cr2 s) 6 \<and> bit (sr s) 0 \<or> bit (cr2 s) 7 \<and> bit (sr s) 1 \<or>
      bit (cr2 s) 5 \<and> (bit (sr s) 2 \<or> bit (sr s) 3))"
  by (auto simp: g233_spi_update_irq_def Let_def and_bit_test and_err_test)

lemma update_irq_frame:
  "cr1 (g233_spi_update_irq s) = cr1 s" "cr2 (g233_spi_update_irq s) = cr2 s"
  "sr (g233_spi_update_irq s) = sr s" "dr_tx (g233_spi_update_irq s) = dr_tx s"
  "dr_rx (g233_spi_update_irq s) = dr_rx s" "csctrl (g233_spi_update_irq s) = csctrl s"
  "prev_csctrl (g233_spi_update_irq s) = prev_csctrl s"
  "rx_fifo_has_data (g233_spi_update_irq s) = rx_fifo_has_data s"
  "cs_lines (g233_spi_update_irq s) = cs_lines s" "cs_level (g233_spi_update_irq s) = cs_level s"
  by (simp_all add: g233_spi_update_irq_def Let_def)

lemma update_irq_spec:
  "irq (g233_spi_update_irq s) = interrupt_level_spec (g233_spi_update_irq s)"
  by (simp add: update_irq_level interrupt_level_spec_def update_irq_frame)

lemma read_DR:
  "g233_spi_read s SPI_DR z =
     (g233_spi_update_irq (s\<lparr>sr := sr s AND NOT SPI_SR_RXNE, rx_fifo_has_data := False\<rparr>),
      ucast (dr_rx s))"
  by (simp add: g233_spi_read_def Let_def)

lemma write_DR_fields:
  assumes "cr1 s AND SPI_CR1_SPE \<noteq> 0"
  shows "sr (fst (g233_spi_write xfer (s, b) SPI_DR v z)) =
           ((if rx_fifo_has_data s \<and> sr s AND SPI_SR_RXNE \<noteq> 0
             then (sr s AND NOT SPI_SR_TXE OR SPI_SR_BSY) OR SPI_SR_OVR
             else sr s AND NOT SPI_SR_TXE OR SPI_SR_BSY)
            OR (SPI_SR_TXE OR SPI_SR_RXNE)) AND NOT SPI_SR_BSY"
    and "dr_rx (fst (g233_spi_write xfer (s, b) SPI_DR v z)) =
           snd (xfer b (ucast (v AND 0xFF))) AND 0xFF"
    and "dr_tx (fst (g233_spi_write xfer (s, b) SPI_DR v z)) = ucast (v AND 0xFF)"
    and "cr1 (fst (g233_spi_write xfer (s, b) SPI_DR v z)) = cr1 s"
    and "cr2 (fst (g233_spi_write xfer (s, b) SPI_DR v z)) = cr2 s"
    and "rx_fifo_has_data (fst (g233_spi_write xfer (s, b) SPI_DR v z))"
    and "snd (g233_spi_write xfer (s, b) SPI_DR v z) = fst (xfer b (ucast (v AND 0xFF)))"
  using assms
  by (simp_all add: g233_spi_write_def Let_def split_beta update_irq_frame)

lemma write_DR_sr_bits:
  assumes "cr1 s AND SPI_CR1_SPE \<noteq> 0"
  shows "bit (sr (fst (g233_spi_write xfer (s, b) SPI_DR v z))) 0"
    and "bit (sr (fst (g233_spi_write xfer (s, b) SPI_DR v z))) 1"
    and "bit (sr (fst (g233_spi_write xfer (s, b) SPI_DR v z))) 3 =
           (bit (sr s) 3 \<or> rx_fifo_has_data s \<and> bit (sr s) 0)"
    and "bit (sr (fst (g233_spi_write xfer (s, b) SPI_DR v z))) 2 = bit (sr s) 2"
  unfolding write_DR_fields(1) [OF assms] and_bit_test
  by (auto simp: bit_simps)

lemma write_DR_irq:
  assumes "cr1 s AND SPI_CR1_SPE \<noteq> 0"
  shows "irq (fst (g233_spi_write xfer (s, b) SPI_DR v z)) =
           interrupt_level_spec (fst (g233_spi_write xfer (s, b) SPI_DR v z))"
  using assms by (simp add: g233_spi_write_def Let_def split_beta update_irq_spec)

lemma write_CSCTRL_level:
  "cs_level (fst (g233_spi_write xfer (s, b) SPI_CSCTRL v z)) =
     (\<lambda>i. if i = 0 \<and> cs_attached s 0 then \<not> (v AND 0x11 = 0x11)
          else if i = 1 \<and> cs_attached s 1 then \<not> (v AND 0x22 = 0x22)
          else cs_level s i)"
  by (auto simp: g233_spi_write_def Let_def cs_attached_def fun_eq_iff)

lemma csctrl_write_slots_0_1:
  assumes "i = 0 \<or> i = 1" and "cs_attached s i"
  shows "cs_level (fst (g233_spi_write xfer (s, b) SPI_CSCTRL v z)) i = (\<not> (bit v i \<and> bit v (i + 4)))"
  using assms by (auto simp: write_CSCTRL_level and_pair_test)

lemma csctrl_write_other_slots:
  assumes "2 \<le> i"
  shows "cs_level (fst (g233_spi_write xfer (s, b) SPI_CSCTRL v z)) i = cs_level s i"
  using assms by (simp add: write_CSCTRL_level)

lemma upt_0_4: "[0 ..< 4] = [0, 1, 2, 3]"
  by (simp add: upt_rec)

lemma spi_init_fields:
  "cr1 spi_init = 0" "cr2 spi_init = 0" "sr spi_init = 2" "dr_rx spi_init = 0"
  "rx_fifo_has_data spi_init = False" "interrupt_count spi_init = 0"
  "cs_attached spi_init 0" "cs_attached spi_init 1" "cs_attached spi_init 2" "cs_attached spi_init 3"
  "cs_level spi_init 0" "cs_level spi_init 1" "cs_level spi_init 2" "cs_level spi_init 3"
  by (simp_all add: spi_init_def g233_spi_reset_def g233_spi_realize_def g233_spi_new_def
        connect_cs_def cs_attached_def upt_0_4 Let_def)

lemma spi_enabled_fields:
  "cr1 spi_enabled = 0x40" "cr2 spi_enabled = 0" "sr spi_enabled = 2"
  "rx_fifo_has_data spi_enabled = False"
  by (simp_all add: spi_enabled_def g233_spi_write_def spi_init_fields)

lemma spi_rx_irq_fields:
  "cr1 spi_rx_irq = 0x40" "cr2 spi_rx_irq = 0x40" "sr spi_rx_irq = 2"
  "rx_fifo_has_data spi_rx_irq = False"
  by (simp_all add: spi_rx_irq_def g233_spi_write_def update_irq_frame spi_enabled_fields)

lemma spi_tx_irq_fields:
  "cr2 spi_tx_irq = 0x80" "sr spi_tx_irq = 2" "interrupt_count spi_tx_irq = 1" "irq spi_tx_irq"
  "dr_rx spi_tx_irq = 0"
  by (simp_all add: spi_tx_irq_def g233_spi_write_def g233_spi_update_irq_def spi_init_fields Let_def)

lemma flash_init_jedec: "jedec_id (flash_init 0) 0 = 0xEF"
  by (simp add: flash_init_def g233_flash_reset_def g233_flash_realize_def g233_flash_new_def Let_def)

lemma jedec_first_transfer:
  "snd (g233_flash_transfer (flash_init 0) CMD_JEDEC_ID) = 0"
  by (simp add: transfer_IDLE flash_init_fields Let_def)

lemma jedec_second_transfer:
  "snd (g233_flash_transfer (fst (g233_flash_transfer (flash_init 0) CMD_JEDEC_ID)) 0) = 0xEF"
  by (simp add: transfer_IDLE transfer_READING_ID flash_init_fields flash_init_jedec
        Let_def word_sless_alt)

section \<open>Claims about the controller\<close>

text \<open>
  Claim C5 (overrun ordering). With the enable bit of \<open>CR1\<close> set, after two writes of
  \<open>DR\<close> in a row the overrun bit of \<open>SR\<close> is set and \<open>dr_rx\<close> holds the low byte of what
  the second transfer returned (the bus being in the state the first transfer left),
  where after the first write it held the low byte of what the first returned. The
  overrun bit after a write is decided by the state before that write: it is the overrun
  bit of that state, or its unread-data condition (\<open>rx_fifo_has_data\<close> and
  receive-not-empty). This holds of the first write, from whatever state it starts, so
  a write onto a controller with no unread data and no overrun leaves the bit clear; and
  it holds of the second, where the first write has made the condition true.
\<close>

theorem overrun_ordering:
  fixes s :: G233SPIState and xfer :: "'b \<Rightarrow> u32 \<Rightarrow> 'b \<times> u32" and b :: 'b
    and v1 v2 :: u64 and z1 z2 :: u32
  assumes "cr1 s AND SPI_CR1_SPE \<noteq> 0"
  defines "w1 \<equiv> g233_spi_write xfer (s, b) SPI_DR v1 z1"
  defines "w2 \<equiv> g233_spi_write xfer w1 SPI_DR v2 z2"
  shows "sr (fst w2) AND SPI_SR_OVR \<noteq> 0 \<and>
         dr_rx (fst w2) = snd (xfer (snd w1) (ucast (v2 AND 0xFF))) AND 0xFF \<and>
         dr_rx (fst w1) = snd (xfer b (ucast (v1 AND 0xFF))) AND 0xFF \<and>
         snd w1 = fst (xfer b (ucast (v1 AND 0xFF))) \<and>
         (sr (fst w1) AND SPI_SR_OVR \<noteq> 0) =
           (sr s AND SPI_SR_OVR \<noteq> 0 \<or>
            rx_fifo_has_data s \<and> sr s AND SPI_SR_RXNE \<noteq> 0) \<and>
         (sr (fst w2) AND SPI_SR_OVR \<noteq> 0) =
           (sr (fst w1) AND SPI_SR_OVR \<noteq> 0 \<or>
            rx_fifo_has_data (fst w1) \<and> sr (fst w1) AND SPI_SR_RXNE \<noteq> 0) \<and>
         rx_fifo_has_data (fst w1) \<and> sr (fst w1) AND SPI_SR_RXNE \<noteq> 0"
proof -
  obtain s1 b1 where w1: "w1 = (s1, b1)"
    by (cases w1)
  have s1: "s1 = fst (g233_spi_write xfer (s, b) SPI_DR v1 z1)"
    and b1: "b1 = snd (g233_spi_write xfer (s, b) SPI_DR v1 z1)"
    using w1 by (simp_all add: w1_def)
  have en1: "cr1 s1 AND SPI_CR1_SPE \<noteq> 0"
    using assms(1) by (simp add: s1 write_DR_fields(4))
  have rx1: "rx_fifo_has_data s1" "bit (sr s1) 0"
    unfolding s1
    by (rule write_DR_fields(6) [OF assms(1)], rule write_DR_sr_bits(1) [OF assms(1)])
  have ovr1: "bit (sr s1) 3 = (bit (sr s) 3 \<or> rx_fifo_has_data s \<and> bit (sr s) 0)"
    unfolding s1 by (rule write_DR_sr_bits(3) [OF assms(1)])
  have ovr2: "bit (sr (fst (g233_spi_write xfer (s1, b1) SPI_DR v2 z2))) 3 =
      (bit (sr s1) 3 \<or> rx_fifo_has_data s1 \<and> bit (sr s1) 0)"
    by (rule write_DR_sr_bits(3) [OF en1])
  have "dr_rx (fst (g233_spi_write xfer (s1, b1) SPI_DR v2 z2)) =
      snd (xfer b1 (ucast (v2 AND 0xFF))) AND 0xFF"
    by (rule write_DR_fields(2) [OF en1])
  moreover have "dr_rx s1 = snd (xfer b (ucast (v1 AND 0xFF))) AND 0xFF"
    unfolding s1 by (rule write_DR_fields(2) [OF assms(1)])
  moreover have "b1 = fst (xfer b (ucast (v1 AND 0xFF)))"
    unfolding b1 by (rule write_DR_fields(7) [OF assms(1)])
  ultimately show ?thesis
    using rx1 ovr1 ovr2 by (simp add: w2_def w1 and_bit_test)
qed

theorem overrun_ordering_witness:
  "cr1 spi_enabled AND SPI_CR1_SPE \<noteq> 0 \<and>
   sr spi_enabled AND SPI_SR_OVR = 0 \<and> \<not> rx_fifo_has_data spi_enabled \<and>
   sr (fst (g233_spi_write g233_flash_transfer (spi_enabled, flash_init 0) SPI_DR 0x9F 4))
     AND SPI_SR_OVR = 0 \<and>
   dr_rx (fst (g233_spi_write g233_flash_transfer (spi_enabled, flash_init 0) SPI_DR 0x9F 4)) = 0 \<and>
   sr (fst (g233_spi_write g233_flash_transfer
              (g233_spi_write g233_flash_transfer (spi_enabled, flash_init 0) SPI_DR 0x9F 4)
              SPI_DR 0x00 4)) AND SPI_SR_OVR \<noteq> 0 \<and>
   dr_rx (fst (g233_spi_write g233_flash_transfer
                 (g233_spi_write g233_flash_transfer (spi_enabled, flash_init 0) SPI_DR 0x9F 4)
                 SPI_DR 0x00 4)) = 0xEF"
  using overrun_ordering [where s = spi_enabled and xfer = g233_flash_transfer
      and b = "flash_init 0" and ?v1.0 = "0x9F" and ?v2.0 = "0x00" and ?z1.0 = 4 and ?z2.0 = 4]
  by (simp add: spi_enabled_fields jedec_second_transfer jedec_first_transfer)

text \<open>
  Claim C6 (interrupt aggregation). After each access that recomputes the interrupt line
  (a read of \<open>DR\<close>, a write of \<open>CR2\<close>, a write of \<open>SR\<close>, a write of \<open>DR\<close> with the
  controller enabled) the level on the line is the one the specification gives for the
  registers as they then are. With the controller enabled, the receive interrupt enabled,
  the transmit interrupt not enabled and, if the error interrupt is enabled, no error
  bit set after the write, the line is high after a write of \<open>DR\<close> and low after the
  read of \<open>DR\<close> that follows.
\<close>

theorem interrupt_aggregation:
  fixes s :: G233SPIState and xfer :: "'b \<Rightarrow> u32 \<Rightarrow> 'b \<times> u32" and b :: 'b
  shows
  "irq (fst (g233_spi_read s SPI_DR z)) = interrupt_level_spec (fst (g233_spi_read s SPI_DR z)) \<and>
   irq (fst (g233_spi_write xfer (s, b) SPI_CR2 v z)) =
     interrupt_level_spec (fst (g233_spi_write xfer (s, b) SPI_CR2 v z)) \<and>
   irq (fst (g233_spi_write xfer (s, b) SPI_SR v z)) =
     interrupt_level_spec (fst (g233_spi_write xfer (s, b) SPI_SR v z)) \<and>
   (cr1 s AND SPI_CR1_SPE \<noteq> 0 \<longrightarrow>
      irq (fst (g233_spi_write xfer (s, b) SPI_DR v z)) =
        interrupt_level_spec (fst (g233_spi_write xfer (s, b) SPI_DR v z))) \<and>
   (cr1 s AND SPI_CR1_SPE \<noteq> 0 \<and> bit (cr2 s) 6 \<and> \<not> bit (cr2 s) 7 \<and>
    (bit (cr2 s) 5 \<longrightarrow>
       \<not> bit (sr (fst (g233_spi_write xfer (s, b) SPI_DR v z))) 2 \<and>
       \<not> bit (sr (fst (g233_spi_write xfer (s, b) SPI_DR v z))) 3) \<longrightarrow>
      irq (fst (g233_spi_write xfer (s, b) SPI_DR v z)) \<and>
      \<not> irq (fst (g233_spi_read (fst (g233_spi_write xfer (s, b) SPI_DR v z)) SPI_DR z')))"
proof (intro conjI impI)
  show "irq (fst (g233_spi_read s SPI_DR z)) = interrupt_level_spec (fst (g233_spi_read s SPI_DR z))"
    by (simp add: read_DR update_irq_spec)
  show "irq (fst (g233_spi_write xfer (s, b) SPI_CR2 v z)) =
     interrupt_level_spec (fst (g233_spi_write xfer (s, b) SPI_CR2 v z))"
    by (simp add: g233_spi_write_def update_irq_spec)
  show "irq (fst (g233_spi_write xfer (s, b) SPI_SR v z)) =
     interrupt_level_spec (fst (g233_spi_write xfer (s, b) SPI_SR v z))"
    by (simp add: g233_spi_write_def update_irq_spec)
next
  assume "cr1 s AND SPI_CR1_SPE \<noteq> 0"
  then show "irq (fst (g233_spi_write xfer (s, b) SPI_DR v z)) =
        interrupt_level_spec (fst (g233_spi_write xfer (s, b) SPI_DR v z))"
    by (rule write_DR_irq)
next
  let ?w = "fst (g233_spi_write xfer (s, b) SPI_DR v z)"
  assume h: "cr1 s AND SPI_CR1_SPE \<noteq> 0 \<and> bit (cr2 s) 6 \<and> \<not> bit (cr2 s) 7 \<and>
    (bit (cr2 s) 5 \<longrightarrow> \<not> bit (sr ?w) 2 \<and> \<not> bit (sr ?w) 3)"
  then have en: "cr1 s AND SPI_CR1_SPE \<noteq> 0"
    by simp
  have irqw: "irq ?w = interrupt_level_spec ?w"
    by (rule write_DR_irq [OF en])
  have cr2w: "cr2 ?w = cr2 s"
    by (rule write_DR_fields(5) [OF en])
  have b0: "bit (sr ?w) 0"
    by (rule write_DR_sr_bits(1) [OF en])
  show "irq ?w"
    using h b0 by (simp add: irqw interrupt_level_spec_def cr2w)
  show "\<not> irq (fst (g233_spi_read ?w SPI_DR z'))"
    using h by (auto simp: read_DR update_irq_level cr2w bit_simps)
qed

theorem interrupt_aggregation_witness:
  "cr1 spi_rx_irq AND SPI_CR1_SPE \<noteq> 0 \<and> bit (cr2 spi_rx_irq) 6 \<and>
   \<not> bit (cr2 spi_rx_irq) 7 \<and> \<not> bit (cr2 spi_rx_irq) 5 \<and>
   irq (fst (g233_spi_write g233_flash_transfer (spi_rx_irq, flash_init 0) SPI_DR 0x9F 4)) \<and>
   interrupt_level_spec
     (fst (g233_spi_write g233_flash_transfer (spi_rx_irq, flash_init 0) SPI_DR 0x9F 4)) \<and>
   \<not> irq (fst (g233_spi_read
                 (fst (g233_spi_write g233_flash_transfer (spi_rx_irq, flash_init 0) SPI_DR 0x9F 4))
                 SPI_DR 4))"
  using interrupt_aggregation [where s = spi_rx_irq and xfer = g233_flash_transfer
      and b = "flash_init 0" and v = "0x9F" and z = 4 and z' = 4]
  by (auto simp add: spi_rx_irq_fields)

text \<open>
  Claim C7 (select lines on a write of \<open>CSCTRL\<close>). The source drives slots 0 and 1 only.
  On the controller with all four lines attached and high after reset, a write of
  \<open>0x44\<close> (enable bit 2 and active bit 6, the pair of slot 2) leaves line 2 high, where
  the claim has it driven low.
\<close>

theorem csctrl_write_leaves_slot_2:
  "cs_attached spi_init 2 \<and> bit (0x44 :: u64) 2 \<and> bit (0x44 :: u64) 6 \<and>
   cs_level spi_init 2 \<and>
   cs_level (fst (g233_spi_write g233_flash_transfer (spi_init, flash_init 0) SPI_CSCTRL 0x44 4)) 2"
  by (simp add: write_CSCTRL_level spi_init_fields)

text \<open>
  Claim C10 (a read of \<open>DR\<close>). As stated the claim fails on one point: the read also
  counts an interrupt. On the controller after reset and \<open>CR2 := TXEIE\<close> the line is high
  (transmit-empty is set), and a read of \<open>DR\<close> changes \<open>interrupt_count\<close>.
\<close>

theorem dr_read_counts_interrupt:
  "interrupt_count (fst (g233_spi_read spi_tx_irq SPI_DR 4)) \<noteq> interrupt_count spi_tx_irq"
  by (simp add: read_DR g233_spi_update_irq_def spi_tx_irq_fields Let_def)

text \<open>
  Claim C10 as amended. A read of \<open>DR\<close> returns \<open>dr_rx\<close> and leaves it in place: a second
  read returns the same value. The state after the read is the state before it with
  the receive-not-empty bit of \<open>SR\<close> cleared, \<open>rx_fifo_has_data\<close> false, the interrupt line
  at the level the specification gives, and \<open>interrupt_count\<close> one higher if that level
  is high; \<open>CR1\<close>, \<open>CR2\<close>, \<open>CSCTRL\<close>, both data latches, the other bits of \<open>SR\<close> and the
  select lines are as they were.
\<close>

theorem dr_read_frame:
  "snd (g233_spi_read s SPI_DR z) = ucast (dr_rx s) \<and>
   snd (g233_spi_read (fst (g233_spi_read s SPI_DR z)) SPI_DR z') = ucast (dr_rx s) \<and>
   fst (g233_spi_read s SPI_DR z) =
     s\<lparr>sr := sr s AND NOT SPI_SR_RXNE, rx_fifo_has_data := False,
       interrupt_count :=
         (if interrupt_level_spec (s\<lparr>sr := sr s AND NOT SPI_SR_RXNE\<rparr>)
          then interrupt_count s + 1 else interrupt_count s),
       irq := interrupt_level_spec (s\<lparr>sr := sr s AND NOT SPI_SR_RXNE\<rparr>)\<rparr>"
  by (auto simp: read_DR update_irq_frame g233_spi_update_irq_def Let_def interrupt_level_spec_def
        and_bit_test and_err_test)

theorem dr_read_frame_witness:
  "snd (g233_spi_read spi_tx_irq SPI_DR 4) = 0 \<and>
   snd (g233_spi_read (fst (g233_spi_read spi_tx_irq SPI_DR 4)) SPI_DR 4) = 0 \<and>
   cr2 (fst (g233_spi_read spi_tx_irq SPI_DR 4)) = cr2 spi_tx_irq \<and>
   interrupt_count (fst (g233_spi_read spi_tx_irq SPI_DR 4)) = 2"
proof -
  note frame = dr_read_frame [of spi_tx_irq 4 4]
  have first: "snd (g233_spi_read spi_tx_irq SPI_DR 4) = 0"
    using frame [THEN conjunct1] by (simp add: spi_tx_irq_fields)
  have second: "snd (g233_spi_read (fst (g233_spi_read spi_tx_irq SPI_DR 4)) SPI_DR 4) = 0"
    using frame [THEN conjunct2, THEN conjunct1] by (simp add: spi_tx_irq_fields)
  have after: "fst (g233_spi_read spi_tx_irq SPI_DR 4) =
      spi_tx_irq\<lparr>sr := 2, rx_fifo_has_data := False, interrupt_count := 2, irq := True\<rparr>"
    using frame [THEN conjunct2, THEN conjunct2]
    by (simp add: spi_tx_irq_fields interrupt_level_spec_def)
  show ?thesis
    by (simp add: first second) (simp add: after)
qed

end
